theory Spec2Isabelle
  imports Complex_Main "HOL-Library.Sublist" "HOL-Library.Log_Nat"
begin

section \<open>Data model\<close>

subsection \<open>JavaScript numbers\<close>

text \<open>
  A JavaScript \<open>number\<close> is an IEEE 754 binary64 value: a finite number (\<open>Num x\<close>,
  where \<open>Num 0\<close> is \<open>+0\<close>), the negative zero, \<open>NaN\<close> or an infinity. Arithmetic
  computes the exact result and rounds it to the nearest binary64 value, a tie going to
  the even significand; a result too large becomes an infinity, one too small a zero of
  the same sign. Division by zero raises nothing: it yields \<open>NaN\<close> or an infinity.
\<close>

datatype jsnum = Num rat | NegZero | NaN | PosInf | NegInf

text \<open>The binary exponent \<open>e\<close> of a positive number \<open>x\<close>: \<open>2 powi e \<le> x < 2 powi (e + 1)\<close>.\<close>

definition expo :: "rat \<Rightarrow> int" where
  "expo x = (if 1 \<le> x then bitlen \<lfloor>x\<rfloor> - 1 else - bitlen (\<lceil>1 / x\<rceil> - 1))"

definition round_half_even :: "rat \<Rightarrow> int" where
  "round_half_even y =
     (let f = \<lfloor>y\<rfloor>; r = y - of_int f in
      if r < 1 / 2 then f
      else if 1 / 2 < r then f + 1
      else if even f then f else f + 1)"

text \<open>
  The spacing of the binary64 values around a positive number: 53 significant bits, and
  the fixed spacing \<open>2 powi (- 1074)\<close> of the subnormal range below \<open>2 powi (- 1022)\<close>.
\<close>

definition quantum :: "rat \<Rightarrow> rat" where
  "quantum a = 2 powi (max (expo a) (- 1022) - 52)"

definition nearest :: "rat \<Rightarrow> rat" where
  "nearest a = of_int (round_half_even (a / quantum a)) * quantum a"

definition round64 :: "rat \<Rightarrow> jsnum" where
  "round64 x =
     (if x = 0 then Num 0
      else if 2 ^ 1024 \<le> nearest \<bar>x\<bar> then (if 0 < x then PosInf else NegInf)
      else if nearest \<bar>x\<bar> = 0 then (if 0 < x then Num 0 else NegZero)
      else Num (sgn x * nearest \<bar>x\<bar>))"

fun negative :: "jsnum \<Rightarrow> bool" where
  "negative (Num x) = (x < 0)"
| "negative NegZero = True"
| "negative NegInf = True"
| "negative _ = False"

fun is_zero :: "jsnum \<Rightarrow> bool" where
  "is_zero (Num x) = (x = 0)"
| "is_zero NegZero = True"
| "is_zero _ = False"

fun is_inf :: "jsnum \<Rightarrow> bool" where
  "is_inf PosInf = True"
| "is_inf NegInf = True"
| "is_inf _ = False"

fun val :: "jsnum \<Rightarrow> rat" where
  "val (Num x) = x"
| "val _ = 0"

definition zero_of :: "bool \<Rightarrow> jsnum" where
  "zero_of neg = (if neg then NegZero else Num 0)"

definition inf_of :: "bool \<Rightarrow> jsnum" where
  "inf_of neg = (if neg then NegInf else PosInf)"

text \<open>
  \<open>a - b\<close>. An exact zero difference is \<open>+0\<close>, except for \<open>(-0) - (+0)\<close>.
\<close>

definition js_sub :: "jsnum \<Rightarrow> jsnum \<Rightarrow> jsnum" where
  "js_sub a b =
     (if a = NaN \<or> b = NaN then NaN
      else if is_inf a then (if is_inf b \<and> negative a = negative b then NaN else a)
      else if is_inf b then inf_of (\<not> negative b)
      else if val a - val b = 0 then (if a = NegZero \<and> b = Num 0 then NegZero else Num 0)
      else round64 (val a - val b))"

text \<open>\<open>a / b\<close>. The sign of a zero or infinite quotient is the product of the signs.\<close>

definition js_div :: "jsnum \<Rightarrow> jsnum \<Rightarrow> jsnum" where
  "js_div a b =
     (if a = NaN \<or> b = NaN then NaN
      else if is_inf a then (if is_inf b then NaN else inf_of (negative a \<noteq> negative b))
      else if is_inf b then zero_of (negative a \<noteq> negative b)
      else if is_zero b then (if is_zero a then NaN else inf_of (negative a \<noteq> negative b))
      else if is_zero a then zero_of (negative a \<noteq> negative b)
      else round64 (val a / val b))"

text \<open>\<open>a * b\<close>.\<close>

definition js_mul :: "jsnum \<Rightarrow> jsnum \<Rightarrow> jsnum" where
  "js_mul a b =
     (if a = NaN \<or> b = NaN then NaN
      else if is_inf a \<or> is_inf b then
        (if is_zero a \<or> is_zero b then NaN else inf_of (negative a \<noteq> negative b))
      else if is_zero a \<or> is_zero b then zero_of (negative a \<noteq> negative b)
      else round64 (val a * val b))"

text \<open>
  \<open>Math.round\<close>: the nearest integer, a tie going towards \<open>+\<infinity>\<close>, which is
  \<open>\<lfloor>x + 1/2\<rfloor>\<close> computed exactly; a negative number that rounds to zero gives
  \<open>-0\<close>; the zeros, \<open>NaN\<close> and the infinities are returned as they are.
\<close>

fun Math_round :: "jsnum \<Rightarrow> jsnum" where
  "Math_round (Num x) =
     (if \<lfloor>x + 1 / 2\<rfloor> = 0 \<and> x < 0 then NegZero else Num (of_int \<lfloor>x + 1 / 2\<rfloor>))"
| "Math_round x = x"

text \<open>The comparison \<open>x > 0\<close>; every comparison with \<open>NaN\<close> is false.\<close>

fun js_positive :: "jsnum \<Rightarrow> bool" where
  "js_positive (Num a) = (0 < a)"
| "js_positive PosInf = True"
| "js_positive _ = False"

text \<open>
  \<open>ToNumber\<close> of a numeric field that may be absent: reading an absent field gives
  \<open>undefined\<close>, which arithmetic converts to \<open>NaN\<close>.
\<close>

fun ToNumber :: "jsnum option \<Rightarrow> jsnum" where
  "ToNumber None = NaN"
| "ToNumber (Some x) = x"

text \<open>A finite value that binary64 holds exactly.\<close>

definition binary64 :: "rat \<Rightarrow> bool" where
  "binary64 x = (round64 x = Num x)"

subsection \<open>Entities of the catalogue API\<close>

text \<open>
  Modelled from the spec: the entity types \<open>Course\<close>, \<open>CourseDetail\<close>,
  \<open>TechnicalSpec\<close> and \<open>SyllabusPhase\<close> are declared in \<open>services/api\<close>, which is
  not part of the sources; their fields are those of section 3 of the specification and
  those the two pages read. \<open>CourseStatus\<close> and \<open>FilterType\<close> are the unions
  declared in \<open>Home.tsx\<close>. Optional fields (\<open>technicalSpecs\<close>, and
  \<open>syllabusPhases\<close>, which the page reads with \<open>?.\<close>) are options, and so are the
  two prices, which the specification allows to be absent.
\<close>

datatype CourseStatus = Online | Offline | Hybrid

datatype FilterType = All | Only CourseStatus

fun status_text :: "CourseStatus \<Rightarrow> string" where
  "status_text Online = ''Online''"
| "status_text Offline = ''Offline''"
| "status_text Hybrid = ''Hybrid''"

record TechnicalSpec =
  label :: string
  spec_value :: string
  icon :: string

record Week =
  week_label :: string
  week_title :: string
  topics :: "string list"

record SyllabusPhase =
  month :: string
  title :: string
  desc :: string
  weeks :: "Week list"

record Course =
  course_id :: string
  name :: string
  status :: CourseStatus
  createdAt :: nat
  originalPrice :: "jsnum option"
  discountedPrice :: "jsnum option"

record CourseDetail = Course +
  description :: string
  language :: string
  certificateImage :: "string option"
  technicalSpecs :: "TechnicalSpec list option"
  syllabusPhases :: "SyllabusPhase list option"

section \<open>Catalogue page (\<open>Home.tsx\<close>)\<close>

text \<open>
  \<open>filteredCourses\<close>. The state variable \<open>courses\<close> holds whatever the gateway
  returned; \<open>None\<close> stands for a value for which \<open>Array.isArray\<close> is false.
\<close>

definition filteredCourses :: "Course list option \<Rightarrow> FilterType \<Rightarrow> Course list" where
  "filteredCourses courses flt =
     (case courses of
        None \<Rightarrow> []
      | Some cs \<Rightarrow>
          (case flt of
             All \<Rightarrow> cs
           | Only st \<Rightarrow> filter (\<lambda>course. status course = st) cs))"

section \<open>Asynchronous completions\<close>

text \<open>
  What an awaited gateway call can do: resolve with a value, or reject with a thrown
  value, which is an \<open>Error\<close> carrying a message or anything else.
\<close>

datatype thrown = Error string | NotAnError

datatype 'a outcome = Resolved 'a | Rejected thrown

text \<open>
  Both pages keep \<open>loading\<close> and \<open>error\<close> in React state; the catalogue page's error
  is a string (\<open>""\<close> for none), the detail page's is \<open>string | null\<close>.
\<close>

record 'e fetch_state =
  loading :: bool
  error :: 'e

text \<open>
  Every run of a fetching effect creates its own \<open>isMounted\<close> variable, captured by
  the continuation of that run's fetch and by that run's cleanup function. The list holds
  these variables in the order the runs were started, so the index of a run is its
  generation. React calls the cleanup of the latest run before it runs the effect again
  and when the component unmounts.
\<close>

record effect_runs =
  isMounted :: "bool list"

definition cleanup :: "'a effect_runs_scheme \<Rightarrow> 'a effect_runs_scheme" where
  "cleanup c = c\<lparr>isMounted := (isMounted c)[length (isMounted c) - 1 := False]\<rparr>"

definition new_run :: "'a effect_runs_scheme \<Rightarrow> 'a effect_runs_scheme" where
  "new_run c = c\<lparr>isMounted := isMounted c @ [True]\<rparr>"

definition stale_runs_off :: "'a effect_runs_scheme \<Rightarrow> bool" where
  "stale_runs_off c = list_all Not (butlast (isMounted c))"

subsection \<open>The catalogue page's fetch\<close>

record Home = "string fetch_state" +
  courses :: "Course list option"
  filter_sel :: FilterType

record Catalog = effect_runs +
  home :: Home
  queries :: "(string \<times> nat) list"

definition home_initial :: Home where
  "home_initial = \<lparr>loading = True, error = [], courses = Some [], filter_sel = All\<rparr>"

definition handleFilterChange :: "FilterType \<Rightarrow> Home \<Rightarrow> Home" where
  "handleFilterChange newFilter h = h\<lparr>filter_sel := newFilter\<rparr>"

text \<open>
  \<open>fetchCourses\<close> up to its \<open>await\<close>: two state writes and the gateway call
  \<open>getAllCourses({sort: "-createdAt", limit: 6})\<close>, recorded in \<open>queries\<close>.
\<close>

definition fetchCourses_start :: "Catalog \<Rightarrow> Catalog" where
  "fetchCourses_start c =
     c\<lparr>home := (home c)\<lparr>loading := True, error := []\<rparr>,
       queries := queries c @ [(''-createdAt'', 6)]\<rparr>"

text \<open>
  \<open>fetchCourses\<close> after its \<open>await\<close>, for a run whose flag now reads \<open>m\<close>. The
  \<open>try\<close> block raises what the gateway rejected with; the \<open>catch\<close> block handles
  every thrown value; the \<open>finally\<close> block runs last. The result is the settlement of
  the promise \<open>fetchCourses()\<close> returns: \<open>Inl\<close> would be an uncaught error.
\<close>

definition fetchCourses_try :: "bool \<Rightarrow> Course list option outcome \<Rightarrow> Home \<Rightarrow> thrown + Home" where
  "fetchCourses_try m out h =
     (case out of
        Rejected err \<Rightarrow> Inl err
      | Resolved data \<Rightarrow> Inr (if m then h\<lparr>courses := data\<rparr> else h))"

definition fetchCourses_catch :: "bool \<Rightarrow> thrown \<Rightarrow> Home \<Rightarrow> Home" where
  "fetchCourses_catch m err h =
     (if m then
        h\<lparr>error := (case err of Error msg \<Rightarrow> msg | NotAnError \<Rightarrow> ''Failed to fetch courses'')\<rparr>
      else h)"

definition fetchCourses_finally :: "bool \<Rightarrow> Home \<Rightarrow> Home" where
  "fetchCourses_finally m h = (if m then h\<lparr>loading := False\<rparr> else h)"

definition fetchCourses_settled :: "bool \<Rightarrow> Course list option outcome \<Rightarrow> Home \<Rightarrow> thrown + Home" where
  "fetchCourses_settled m out h =
     (case fetchCourses_try m out h of
        Inl err \<Rightarrow> Inr (fetchCourses_finally m (fetchCourses_catch m err h))
      | Inr h' \<Rightarrow> Inr (fetchCourses_finally m h'))"

datatype home_event =
    RunEffect
  | HomeSettle nat "Course list option outcome"
  | SetFilter FilterType
  | HomeUnmount

text \<open>
  The effect has no dependencies, so it runs at mount; \<open>RunEffect\<close> is a further run
  (a remount that keeps the state), with the previous run cleaned up first.
  \<open>HomeSettle g out\<close> is the completion of the fetch of run \<open>g\<close>.
\<close>

definition home_effect :: "Catalog \<Rightarrow> Catalog" where
  "home_effect c = fetchCourses_start (new_run c)"

definition home_mount :: Catalog where
  "home_mount = home_effect \<lparr>isMounted = [], home = home_initial, queries = []\<rparr>"

fun home_step :: "Catalog \<Rightarrow> home_event \<Rightarrow> Catalog" where
  "home_step c RunEffect = home_effect (cleanup c)"
| "home_step c (HomeSettle g out) =
     (if g < length (isMounted c) then
        (case fetchCourses_settled (isMounted c ! g) out (home c) of
           Inr h \<Rightarrow> c\<lparr>home := h\<rparr>
         | Inl err \<Rightarrow> c)
      else c)"
| "home_step c (SetFilter f) = c\<lparr>home := handleFilterChange f (home c)\<rparr>"
| "home_step c HomeUnmount = cleanup c"

definition home_run :: "home_event list \<Rightarrow> Catalog" where
  "home_run es = foldl home_step home_mount es"

section \<open>Course detail page\<close>

subsection \<open>State and memoised projections\<close>

text \<open>
  The React state of \<open>CourseDetailPage\<close>. \<open>activePhase\<close> is a \<open>number\<close>; only array
  indices are ever stored in it, and an integer keeps negative requests expressible.
\<close>

record CourseDetailPage = "string option fetch_state" +
  activePhase :: int
  course :: "CourseDetail option"

definition WEEKS_PER_PHASE :: nat where
  "WEEKS_PER_PHASE = 4"

definition discountPercent :: "CourseDetail option \<Rightarrow> jsnum" where
  "discountPercent c =
     (case c of
        None \<Rightarrow> Num 0
      | Some crs \<Rightarrow>
          Math_round
            (js_mul
               (js_div
                  (js_sub (ToNumber (originalPrice crs)) (ToNumber (discountedPrice crs)))
                  (ToNumber (originalPrice crs)))
               (Num 100)))"

text \<open>The decimal digits of a number, as a template literal prints it.\<close>

fun show_nat :: "nat \<Rightarrow> string" where
  "show_nat n =
     (if n < 10 then [''0123456789'' ! n]
      else show_nat (n div 10) @ [''0123456789'' ! (n mod 10)])"

definition duration_months :: "CourseDetail \<Rightarrow> nat" where
  "duration_months crs =
     (case syllabusPhases crs of
        None \<Rightarrow> 6
      | Some ps \<Rightarrow> if length ps = 0 then 6 else length ps)"

definition fallback_specs :: "CourseDetail \<Rightarrow> TechnicalSpec list" where
  "fallback_specs crs =
     [\<lparr>label = ''Duration'',
       spec_value = show_nat (duration_months crs) @ '' Months'',
       icon = ''M12 6v6h4.5m4.5 0a9 9 0 1 1-18 0 9 9 0 0 1 18 0Z''\<rparr>,
      \<lparr>label = ''Mode'',
       spec_value = status_text (status crs),
       icon = ''M9 17.25v1.007a3 3 0 0 1-.879 2.122L7.5 21h9l-.621-.621A3 3 0 0 1 15 18.257V17.25m6-12V15a2.25 2.25 0 0 1-2.25 2.25H5.25A2.25 2.25 0 0 1 3 15V5.25m18 0A2.25 2.25 0 0 0 18.75 3H5.25A2.25 2.25 0 0 0 3 5.25m18 0V12a2.25 2.25 0 0 1-2.25 2.25H5.25A2.25 2.25 0 0 1 3 12V5.25''\<rparr>,
      \<lparr>label = ''Language'',
       spec_value = language crs,
       icon = ''M10.5 21l5.25-11.25L21 21m-9-3h7.5M3 5.621a48.474 48.474 0 0 1 6-.371m0 0c1.12 0 2.233.038 3.334.114M9 5.25V3m3.334 2.364C11.176 10.658 7.69 15.08 3 17.502m9.334-12.138c.896.061 1.785.147 2.666.257m-4.589 8.495a18.023 18.023 0 0 1-3.827-5.802''\<rparr>]"

text \<open>
  \<open>course.technicalSpecs || [...]\<close>: an array is truthy whatever its length, so the
  right operand is taken only when the field is absent.
\<close>

definition technicalSpecs_memo :: "CourseDetail option \<Rightarrow> TechnicalSpec list" where
  "technicalSpecs_memo c =
     (case c of
        None \<Rightarrow> []
      | Some crs \<Rightarrow>
          (case technicalSpecs crs of
             Some specs \<Rightarrow> specs
           | None \<Rightarrow> fallback_specs crs))"

definition syllabusPhases_memo :: "CourseDetail option \<Rightarrow> SyllabusPhase list" where
  "syllabusPhases_memo c =
     (case c of
        None \<Rightarrow> []
      | Some crs \<Rightarrow> (case syllabusPhases crs of None \<Rightarrow> [] | Some ps \<Rightarrow> ps))"

definition totalWeeks :: "CourseDetail option \<Rightarrow> nat" where
  "totalWeeks c = length (syllabusPhases_memo c) * WEEKS_PER_PHASE"

text \<open>\<open>s.split(" ")\<close>: the pieces between single spaces, empty pieces included.\<close>

fun split_space :: "string \<Rightarrow> string list" where
  "split_space [] = [[]]"
| "split_space (ch # rest) =
     (if ch = CHR '' '' then [] # split_space rest
      else (case split_space rest of
              [] \<Rightarrow> [[ch]]
            | w # ws \<Rightarrow> (ch # w) # ws))"

definition courseNameParts :: "CourseDetail option \<Rightarrow> string list" where
  "courseNameParts c = (case c of None \<Rightarrow> [] | Some crs \<Rightarrow> split_space (name crs))"

subsection \<open>Rendering\<close>

text \<open>
  The component returns one of four screens, tested in this order: loading, error
  (\<open>if (error)\<close>: a non-empty string), course not found (\<open>if (!course)\<close>), and the
  course itself. The course screen shows the syllabus section when there is at least one
  phase, and reads \<open>syllabusPhases[activePhase].title\<close> there: for an index outside the
  array the read yields \<open>undefined\<close> and the property access raises a \<open>TypeError\<close>.
\<close>

datatype render_error = TypeError

datatype screen =
    LoadingScreen
  | ErrorScreen string
  | NotFoundScreen
  | CourseScreen CourseDetail "SyllabusPhase option"

definition phase_content :: "CourseDetailPage \<Rightarrow> render_error + SyllabusPhase option" where
  "phase_content p =
     (let ps = syllabusPhases_memo (course p) in
      if length ps > 0 then
        (if 0 \<le> activePhase p \<and> activePhase p < int (length ps)
         then Inr (Some (ps ! nat (activePhase p)))
         else Inl TypeError)
      else Inr None)"

definition render :: "CourseDetailPage \<Rightarrow> render_error + screen" where
  "render p =
     (if loading p then Inr LoadingScreen
      else (case error p of
              Some (c # cs) \<Rightarrow> Inr (ErrorScreen (c # cs))
            | _ \<Rightarrow>
              (case course p of
                 None \<Rightarrow> Inr NotFoundScreen
               | Some crs \<Rightarrow>
                   (case phase_content p of
                      Inl e \<Rightarrow> Inl e
                    | Inr ph \<Rightarrow> Inr (CourseScreen crs ph)))))"

subsection \<open>Phase headers\<close>

text \<open>
  \<open>syllabusPhases.map((phase, i) => <button onClick={() => setActivePhase(i)} ...>)\<close>:
  one button per phase of the rendered course screen, and no other caller of
  \<open>setActivePhase\<close>. A click on header \<open>i\<close> is an event only where that button
  exists; elsewhere nothing is dispatched.
\<close>

definition setActivePhase :: "int \<Rightarrow> CourseDetailPage \<Rightarrow> CourseDetailPage" where
  "setActivePhase i p = p\<lparr>activePhase := i\<rparr>"

definition phase_headers :: "CourseDetailPage \<Rightarrow> int list" where
  "phase_headers p =
     (case render p of
        Inr (CourseScreen crs ph) \<Rightarrow> map int [0..<length (syllabusPhases_memo (course p))]
      | _ \<Rightarrow> [])"

definition click_header :: "int \<Rightarrow> CourseDetailPage \<Rightarrow> CourseDetailPage" where
  "click_header i p = (if i \<in> set (phase_headers p) then setActivePhase i p else p)"

subsection \<open>The fetching effect\<close>

definition truthy_id :: "string option \<Rightarrow> bool" where
  "truthy_id i = (case i of None \<Rightarrow> False | Some s \<Rightarrow> s \<noteq> [])"

definition errorMessage :: "thrown \<Rightarrow> string" where
  "errorMessage err =
     (case err of
        Error msg \<Rightarrow> msg
      | NotAnError \<Rightarrow> ''Failed to load course data. Please try again later.'')"

definition fetchCourse_catch :: "bool \<Rightarrow> thrown \<Rightarrow> CourseDetailPage \<Rightarrow> CourseDetailPage" where
  "fetchCourse_catch m err p = (if \<not> m then p else p\<lparr>error := Some (errorMessage err)\<rparr>)"

definition fetchCourse_finally :: "bool \<Rightarrow> CourseDetailPage \<Rightarrow> CourseDetailPage" where
  "fetchCourse_finally m p = (if m then p\<lparr>loading := False\<rparr> else p)"

text \<open>
  \<open>fetchCourse\<close> after its \<open>await\<close>, for a run whose flag now reads \<open>m\<close>; \<open>Inl\<close>
  would be an error that escapes the function.
\<close>

definition fetchCourse_try ::
  "bool \<Rightarrow> CourseDetail option outcome \<Rightarrow> CourseDetailPage \<Rightarrow> thrown + CourseDetailPage" where
  "fetchCourse_try m out p =
     (case out of
        Rejected err \<Rightarrow> Inl err
      | Resolved data \<Rightarrow> Inr (if \<not> m then p else p\<lparr>course := data\<rparr>))"

definition fetchCourse_settled ::
  "bool \<Rightarrow> CourseDetail option outcome \<Rightarrow> CourseDetailPage \<Rightarrow> thrown + CourseDetailPage" where
  "fetchCourse_settled m out p =
     (case fetchCourse_try m out p of
        Inl err \<Rightarrow> Inr (fetchCourse_finally m (fetchCourse_catch m err p))
      | Inr p' \<Rightarrow> Inr (fetchCourse_finally m p'))"

record Detail = effect_runs +
  page :: CourseDetailPage
  param :: "string option"
  calls :: "string list"

text \<open>
  \<open>fetchCourse\<close> up to its \<open>await\<close>, called while the run's flag is still true. With a
  falsy \<open>id\<close> the \<open>throw\<close> inside \<open>try\<close> is caught at once and the function ends
  without a gateway call; otherwise \<open>getCourseById(id)\<close> is called, which \<open>calls\<close>
  records.
\<close>

definition fetchCourse_start :: "string option \<Rightarrow> Detail \<Rightarrow> Detail" where
  "fetchCourse_start i d =
     (let p = (page d)\<lparr>loading := True, error := None\<rparr> in
      case i of
        Some (c # cs) \<Rightarrow> d\<lparr>page := p, calls := calls d @ [c # cs]\<rparr>
      | _ \<Rightarrow>
          d\<lparr>page := fetchCourse_finally True
                      (fetchCourse_catch True (Error ''Course ID is required'') p)\<rparr>)"

text \<open>The effect body: \<open>if (id) fetchCourse() else { setError(...); setLoading(false) }\<close>.\<close>

definition detail_effect :: "string option \<Rightarrow> Detail \<Rightarrow> Detail" where
  "detail_effect i d =
     (let d' = (new_run d)\<lparr>param := i\<rparr> in
      if truthy_id i then fetchCourse_start i d'
      else d'\<lparr>page := (page d')\<lparr>error := Some ''Course ID is missing'', loading := False\<rparr>\<rparr>)"

definition page_initial :: CourseDetailPage where
  "page_initial = \<lparr>loading = True, error = None, activePhase = 0, course = None\<rparr>"

definition detail_mount :: "string option \<Rightarrow> Detail" where
  "detail_mount i =
     detail_effect i \<lparr>isMounted = [], page = page_initial, param = i, calls = []\<rparr>"

datatype detail_event =
    ChangeId "string option"
  | Settle nat "CourseDetail option outcome"
  | ClickPhase int
  | Unmount

text \<open>
  \<open>ChangeId i\<close>: the route parameter becomes \<open>i\<close>; the effect depends on \<open>[id]\<close>, so
  for a different value React cleans the previous run up and runs the effect again, the
  component and its state staying in place. \<open>Settle g out\<close>: the fetch of run \<open>g\<close>
  completes. \<open>ClickPhase i\<close>: a click on phase header \<open>i\<close>. \<open>Unmount\<close>: teardown.
\<close>

fun detail_step :: "Detail \<Rightarrow> detail_event \<Rightarrow> Detail" where
  "detail_step d (ChangeId i) = (if i = param d then d else detail_effect i (cleanup d))"
| "detail_step d (Settle g out) =
     (if g < length (isMounted d) then
        (case fetchCourse_settled (isMounted d ! g) out (page d) of
           Inr p \<Rightarrow> d\<lparr>page := p\<rparr>
         | Inl err \<Rightarrow> d)
      else d)"
| "detail_step d (ClickPhase i) = d\<lparr>page := click_header i (page d)\<rparr>"
| "detail_step d Unmount = cleanup d"

definition detail_run :: "string option \<Rightarrow> detail_event list \<Rightarrow> Detail" where
  "detail_run i es = foldl detail_step (detail_mount i) es"

subsection \<open>Valid phase index\<close>

text \<open>The active phase is a valid index whenever there are phases.\<close>

definition phase_in_range :: "CourseDetailPage \<Rightarrow> bool" where
  "phase_in_range p =
     (0 < length (syllabusPhases_memo (course p)) \<longrightarrow>
        0 \<le> activePhase p \<and> activePhase p < int (length (syllabusPhases_memo (course p))))"

subsection \<open>Traces of a single load\<close>

text \<open>
  A promise settles at most once, so a trace of real events names each run in at most one
  \<open>Settle\<close>. \<open>single_load i es\<close> holds of such a trace in which the \<open>id\<close> also stays
  \<open>i\<close>: the page then issues the one fetch of its mount and no other.
\<close>

fun settled_run :: "detail_event \<Rightarrow> nat list" where
  "settled_run (Settle g out) = [g]"
| "settled_run e = []"

definition settled_runs :: "detail_event list \<Rightarrow> nat list" where
  "settled_runs es = concat (map settled_run es)"

fun keeps_id :: "string option \<Rightarrow> detail_event \<Rightarrow> bool" where
  "keeps_id i (ChangeId j) = (j = i)"
| "keeps_id i e = True"

definition single_load :: "string option \<Rightarrow> detail_event list \<Rightarrow> bool" where
  "single_load i es = (list_all (keeps_id i) es \<and> distinct (settled_runs es))"

definition before_load :: "detail_event list \<Rightarrow> Detail \<Rightarrow> bool" where
  "before_load es d =
     (0 \<notin> set (settled_runs es) \<longrightarrow> activePhase (page d) = 0 \<and> course (page d) = None)"

text \<open>
  What holds along a single load: one effect run, the \<open>id\<close> of the mount, the active
  phase a valid index whenever there are phases and, until run 0 has settled, still 0 with
  no course.
\<close>

definition load_inv :: "string option \<Rightarrow> detail_event list \<Rightarrow> Detail \<Rightarrow> bool" where
  "load_inv i es d =
     (length (isMounted d) = 1 \<and> param d = i \<and> phase_in_range (page d) \<and> before_load es d)"

section \<open>Sample data\<close>

definition sample_course ::
  "jsnum \<Rightarrow> jsnum \<Rightarrow> TechnicalSpec list option \<Rightarrow> SyllabusPhase list option \<Rightarrow> CourseDetail" where
  "sample_course p q specs ps =
     \<lparr>course_id = ''c1'', name = ''Data Science'', status = Online, createdAt = 0,
      originalPrice = Some p, discountedPrice = Some q, description = [],
      language = ''English'',
      certificateImage = None, technicalSpecs = specs, syllabusPhases = ps\<rparr>"

definition sample_phase :: "string \<Rightarrow> SyllabusPhase" where
  "sample_phase t = \<lparr>month = ''Month'', title = t, desc = [], weeks = []\<rparr>"

definition two_phase_course :: CourseDetail where
  "two_phase_course =
     sample_course (Num 1000) (Num 750) None
       (Some [sample_phase ''Foundations'', sample_phase ''Projects''])"

definition one_phase_course :: CourseDetail where
  "one_phase_course = sample_course (Num 500) (Num 500) None (Some [sample_phase ''Basics''])"

definition id_change_trace :: "detail_event list" where
  "id_change_trace =
     [Settle 0 (Resolved (Some two_phase_course)), ClickPhase 1,
      ChangeId (Some ''c2''), Settle 1 (Resolved (Some one_phase_course))]"

definition loaded_page :: CourseDetailPage where
  "loaded_page = \<lparr>loading = False, error = None, activePhase = 0, course = Some two_phase_course\<rparr>"

definition loaded_detail :: Detail where
  "loaded_detail = \<lparr>isMounted = [True], page = loaded_page, param = Some ''c1'', calls = [''c1'']\<rparr>"

definition single_load_trace :: "detail_event list" where
  "single_load_trace =
     [ClickPhase 1, Settle 0 (Resolved (Some two_phase_course)), ClickPhase 1, ClickPhase 5,
      ChangeId (Some ''c1''), Settle 1 (Rejected NotAnError), ClickPhase (- 1), Unmount]"

section \<open>Properties of the catalogue filter\<close>

text \<open>
  C2. \<open>filteredCourses\<close> with the filter \<open>All\<close> is the course list itself; with a status
  filter it is the list of the courses of that status in their original order, which is
  the sublist at exactly the positions whose course has that status; and it is empty,
  without any failure, when \<open>courses\<close> is not an array and in the initial state, before
  anything is loaded.
\<close>

theorem filteredCourses_correct:
  "filteredCourses (Some L) All = L
   \<and> filteredCourses (Some L) (Only f) = filter (\<lambda>c. status c = f) L
   \<and> filteredCourses (Some L) (Only f) = nths L {i. i < length L \<and> status (L ! i) = f}
   \<and> subseq (filteredCourses (Some L) (Only f)) L
   \<and> set (filteredCourses (Some L) (Only f)) = {c \<in> set L. status c = f}
   \<and> filteredCourses None flt = []
   \<and> filteredCourses (courses home_initial) flt = []"
proof -
  have sel: "filteredCourses (Some L) (Only f) = filter (\<lambda>c. status c = f) L"
    by (simp add: filteredCourses_def)
  have idx: "filter (\<lambda>c. status c = f) L = nths L {i. i < length L \<and> status (L ! i) = f}"
    by (rule filter_eq_nths)
  have init: "filteredCourses (courses home_initial) flt = []"
    by (cases flt) (simp_all add: filteredCourses_def home_initial_def)
  have sub: "subseq (filter (\<lambda>c. status c = f) L) L"
    by (rule subseq_filter_left)
  have mem: "set (filter (\<lambda>c. status c = f) L) = {c \<in> set L. status c = f}"
    by (rule set_filter)
  have all: "filteredCourses (Some L) All = L" and non: "filteredCourses None flt = []"
    by (simp_all add: filteredCourses_def)
  from all sel idx sub mem non init show ?thesis
    by (simp only: simp_thms)
qed

section \<open>Properties of the detail page's projections\<close>

text \<open>
  C10. While no course record is loaded, every projection is its fixed default:
  \<open>discountPercent\<close> is 0, \<open>technicalSpecs\<close>, \<open>syllabusPhases\<close> and
  \<open>courseNameParts\<close> are empty and \<open>totalWeeks\<close> is 0.
\<close>

theorem no_course_defaults:
  "discountPercent None = Num 0
   \<and> technicalSpecs_memo None = []
   \<and> syllabusPhases_memo None = []
   \<and> totalWeeks None = 0
   \<and> courseNameParts None = []"
  by (simp add: discountPercent_def technicalSpecs_memo_def syllabusPhases_memo_def
      totalWeeks_def courseNameParts_def)

subsection \<open>Binary64 rounding\<close>

lemma expo_bounds:
  assumes "0 < x"
  shows "2 powi expo x \<le> x \<and> x < 2 powi (expo x + 1)"
proof (cases "1 \<le> x")
  case True
  define m where "m = \<lfloor>x\<rfloor>"
  have m: "0 < m" using True by (simp add: m_def)
  have e: "expo x = bitlen m - 1" using True by (simp add: expo_def m_def)
  from m have b1: "1 \<le> bitlen m" by (simp add: bitlen_alt_def)
  from bitlen_bounds [OF m] have lo: "2 ^ nat (bitlen m - 1) \<le> m" and hi: "m < 2 ^ nat (bitlen m)"
    by simp_all
  have "(2::rat) powi (bitlen m - 1) = of_int (2 ^ nat (bitlen m - 1))"
    using b1 by (simp add: power_int_nonneg_exp)
  also have "\<dots> \<le> of_int m" using lo by (simp only: of_int_le_iff)
  also have "\<dots> \<le> x" by (simp add: m_def)
  finally have A: "2 powi expo x \<le> x" by (simp add: e)
  have "m + 1 \<le> 2 ^ nat (bitlen m)" using hi by simp
  then have "(of_int (m + 1) :: rat) \<le> of_int (2 ^ nat (bitlen m))" by (simp only: of_int_le_iff)
  moreover have "x < of_int (m + 1)" using floor_correct [of x] by (simp add: m_def)
  ultimately have "x < of_int (2 ^ nat (bitlen m))" by simp
  also have "\<dots> = 2 powi (bitlen m)" using b1 by (simp add: power_int_nonneg_exp)
  finally have B: "x < 2 powi (expo x + 1)" by (simp add: e)
  from A B show ?thesis ..
next
  case False
  define y where "y = 1 / x"
  define m where "m = \<lceil>y\<rceil>"
  define k where "k = bitlen (m - 1)"
  have y1: "1 < y" using False assms by (simp add: y_def)
  then have m2: "2 \<le> m" unfolding m_def by (simp add: le_ceiling_iff)
  then have m1: "0 < m - 1" by simp
  have e: "expo x = - k" using False by (simp add: expo_def k_def m_def y_def)
  from m1 have k1: "1 \<le> k" by (simp add: bitlen_alt_def k_def)
  from bitlen_bounds [OF m1] have lo: "2 ^ nat (k - 1) \<le> m - 1" and hi: "m - 1 < 2 ^ nat k"
    by (simp_all add: k_def)
  have "y \<le> of_int m" by (simp add: m_def)
  also have "(of_int m :: rat) \<le> of_int (2 ^ nat k)" using hi by (simp only: of_int_le_iff)
  also have "\<dots> = 2 powi k" using k1 by (simp add: power_int_nonneg_exp)
  finally have "y \<le> 2 powi k" .
  then have "1 / 2 powi k \<le> 1 / y" using y1 by (simp add: frac_le)
  then have A: "2 powi expo x \<le> x" using assms by (simp add: e y_def power_int_minus_divide)
  have "(2::rat) powi (k - 1) = of_int (2 ^ nat (k - 1))" using k1 by (simp add: power_int_nonneg_exp)
  also have "\<dots> \<le> of_int (m - 1)" using lo by (simp only: of_int_le_iff)
  also have "(of_int (m - 1) :: rat) < y" unfolding m_def using ceiling_correct [of y] by simp
  finally have "2 powi (k - 1) < y" .
  then have lt: "1 / y < 1 / 2 powi (k - 1)" by (simp add: frac_less2)
  have ex: "expo x + 1 = - (k - 1)" by (simp add: e)
  have "x = 1 / y" using assms by (simp add: y_def)
  also note lt
  also have "1 / 2 powi (k - 1) = (2::rat) powi (- (k - 1))"
    by (rule power_int_minus_divide [symmetric])
  finally have B: "x < 2 powi (expo x + 1)" unfolding ex .
  from A B show ?thesis ..
qed

lemma expo_mono:
  assumes "0 < x" "x \<le> y"
  shows "expo x \<le> expo y"
proof -
  have "2 powi expo x \<le> x" using assms(1) expo_bounds by blast
  also have "x \<le> y" by fact
  also have "y < 2 powi (expo y + 1)" using assms expo_bounds [of y] by simp
  finally have "(2::rat) powi expo x < 2 powi (expo y + 1)" .
  then have "expo x < expo y + 1"
    by (metis power_int_increasing not_less one_le_numeral)
  then show ?thesis by simp
qed

lemma round_half_even_of_int [simp]: "round_half_even (of_int n) = n"
  by (simp add: round_half_even_def)

lemma round_half_even_bounds:
  "\<lfloor>y\<rfloor> \<le> round_half_even y \<and> round_half_even y \<le> \<lceil>y\<rceil>"
proof -
  have "\<lfloor>y\<rfloor> + 1 \<le> \<lceil>y\<rceil>" if "y \<noteq> of_int \<lfloor>y\<rfloor>"
    using that by (metis ceiling_altdef add.commute order_refl)
  moreover have "round_half_even y = \<lfloor>y\<rfloor>" if "y = of_int \<lfloor>y\<rfloor>"
    using that by (metis round_half_even_of_int)
  ultimately show ?thesis
    by (cases "y = of_int \<lfloor>y\<rfloor>") (auto simp add: round_half_even_def Let_def)
qed

lemma round_half_even_mono:
  assumes "a \<le> b"
  shows "round_half_even a \<le> round_half_even b"
proof (cases "\<lfloor>a\<rfloor> = \<lfloor>b\<rfloor>")
  case True
  have "a - of_int \<lfloor>a\<rfloor> \<le> b - of_int \<lfloor>b\<rfloor>" using assms True by simp
  then show ?thesis
    using True by (auto simp add: round_half_even_def Let_def)
next
  case False
  have "\<lfloor>a\<rfloor> \<le> \<lfloor>b\<rfloor>" using assms by (rule floor_mono)
  with False have lt: "\<lfloor>a\<rfloor> < \<lfloor>b\<rfloor>" by simp
  then have "a < of_int \<lfloor>b\<rfloor>" by (simp add: floor_less_iff)
  then have "\<lceil>a\<rceil> \<le> \<lfloor>b\<rfloor>" by (simp add: ceiling_le_iff)
  then show ?thesis
    using round_half_even_bounds [of a] round_half_even_bounds [of b] by linarith
qed


lemma quantum_pos: "0 < quantum a"
  by (simp add: quantum_def)

lemma quantum_mono: "0 < x \<Longrightarrow> x \<le> y \<Longrightarrow> quantum x \<le> quantum y"
  using expo_mono [of x y] by (simp add: quantum_def power_int_increasing)

lemma nearest_nonneg: "0 \<le> a \<Longrightarrow> 0 \<le> nearest a"
proof -
  assume "0 \<le> a"
  then have "0 \<le> a / quantum a" using quantum_pos [of a] by simp
  then have "round_half_even 0 \<le> round_half_even (a / quantum a)" by (rule round_half_even_mono)
  then have "0 \<le> round_half_even (a / quantum a)" by (simp add: round_half_even_def)
  then show ?thesis using quantum_pos [of a] by (simp add: nearest_def)
qed

lemma nearest_upper:
  assumes "0 < x"
  shows "nearest x \<le> 2 powi (max (expo x) (- 1022) + 1)"
proof -
  let ?e = "max (expo x) (- 1022)"
  have q: "quantum x = 2 powi (?e - 52)" by (simp add: quantum_def)
  have "x < 2 powi (expo x + 1)" using assms expo_bounds by blast
  also have "\<dots> \<le> 2 powi (?e + 1)" by (intro power_int_increasing) simp_all
  finally have "x / quantum x < 2 powi (?e + 1) / quantum x"
    using quantum_pos [of x] by (simp add: divide_strict_right_mono)
  also have "2 powi (?e + 1) / quantum x = (2::rat) powi 53"
    unfolding q by (subst power_int_diff [symmetric]) simp_all
  finally have "x / quantum x \<le> of_int (2 ^ 53)" by simp
  then have "round_half_even (x / quantum x) \<le> round_half_even (of_int (2 ^ 53))"
    by (rule round_half_even_mono)
  then have "round_half_even (x / quantum x) \<le> 2 ^ 53" by (simp only: round_half_even_of_int)
  then have "(of_int (round_half_even (x / quantum x)) :: rat) \<le> of_int (2 ^ 53)"
    by (simp only: of_int_le_iff)
  then have "nearest x \<le> of_int (2 ^ 53) * quantum x"
    unfolding nearest_def using quantum_pos [of x] by (intro mult_right_mono) simp_all
  also have "of_int (2 ^ 53) * quantum x = (2::rat) powi 53 * 2 powi (?e - 52)"
    by (simp add: q)
  also have "\<dots> = 2 powi (?e + 1)"
    by (subst power_int_add [symmetric]) (simp_all add: add.commute)
  finally show ?thesis .
qed

lemma nearest_lower:
  assumes "0 < y" "- 1022 \<le> expo y"
  shows "2 powi expo y \<le> nearest y"
proof -
  have q: "quantum y = 2 powi (expo y - 52)" using assms(2) by (simp add: quantum_def max_def)
  have "2 powi expo y \<le> y" using assms expo_bounds by blast
  then have "2 powi expo y / quantum y \<le> y / quantum y"
    using quantum_pos [of y] by (simp add: divide_right_mono)
  moreover have "2 powi expo y / quantum y = (2::rat) powi 52"
    unfolding q by (subst power_int_diff [symmetric]) simp_all
  ultimately have "of_int (2 ^ 52) \<le> y / quantum y" by simp
  then have "round_half_even (of_int (2 ^ 52)) \<le> round_half_even (y / quantum y)"
    by (rule round_half_even_mono)
  then have "2 ^ 52 \<le> round_half_even (y / quantum y)" by (simp only: round_half_even_of_int)
  then have "(of_int (2 ^ 52) :: rat) \<le> of_int (round_half_even (y / quantum y))"
    by (simp only: of_int_le_iff)
  then have "of_int (2 ^ 52) * quantum y \<le> nearest y"
    unfolding nearest_def using quantum_pos [of y] by (intro mult_right_mono) simp_all
  moreover have "of_int (2 ^ 52) * quantum y = (2::rat) powi 52 * 2 powi (expo y - 52)"
    by (simp add: q)
  moreover have "(2::rat) powi 52 * 2 powi (expo y - 52) = 2 powi expo y"
    by (subst power_int_add [symmetric]) simp_all
  ultimately show ?thesis by simp
qed

lemma nearest_mono:
  assumes "0 < x" "x \<le> y"
  shows "nearest x \<le> nearest y"
proof (cases "max (expo x) (- 1022) = max (expo y) (- 1022)")
  case True
  then have q: "quantum x = quantum y" by (simp add: quantum_def)
  have "x / quantum y \<le> y / quantum y"
    using assms quantum_pos [of y] by (simp add: divide_right_mono)
  then have "round_half_even (x / quantum y) \<le> round_half_even (y / quantum y)"
    by (rule round_half_even_mono)
  then have "(of_int (round_half_even (x / quantum y)) :: rat)
      \<le> of_int (round_half_even (y / quantum y))"
    by (simp only: of_int_le_iff)
  then show ?thesis
    unfolding nearest_def q using quantum_pos [of y] by (intro mult_right_mono) simp_all
next
  case False
  have le: "expo x \<le> expo y" using assms by (rule expo_mono)
  with False have lt: "max (expo x) (- 1022) < expo y" and big: "- 1022 \<le> expo y"
    by (auto simp add: max_def split: if_splits)
  have y: "0 < y" using assms by simp
  have "nearest x \<le> 2 powi (max (expo x) (- 1022) + 1)" using assms(1) by (rule nearest_upper)
  also have "\<dots> \<le> 2 powi expo y"
  proof -
    have "max (expo x) (- 1022) + 1 \<le> expo y" using lt by linarith
    then show ?thesis by (rule power_int_increasing) simp
  qed
  also have "\<dots> \<le> nearest y" using y big by (rule nearest_lower)
  finally show ?thesis .
qed

lemma floor_rat_numeral: "\<lfloor>numeral a / numeral b :: rat\<rfloor> = numeral a div numeral b"
  using floor_divide_of_int_eq [of "numeral a" "numeral b", where ?'a = rat] by simp

lemma ceiling_rat_numeral: "\<lceil>numeral a / numeral b :: rat\<rceil> = - (- numeral a div numeral b)"
proof -
  have "\<lceil>numeral a / numeral b :: rat\<rceil> = - \<lfloor>- (numeral a / numeral b :: rat)\<rfloor>"
    by (simp add: ceiling_def)
  also have "- (numeral a / numeral b :: rat) = of_int (- numeral a) / of_int (numeral b)"
    by simp
  also have "\<lfloor>\<dots>\<rfloor> = - numeral a div numeral b"
    by (rule floor_divide_of_int_eq)
  finally show ?thesis .
qed

lemma bitlen_numeral_simps:
  "bitlen 1 = 1"
  "bitlen (numeral (Num.Bit0 n)) = bitlen (numeral n) + 1"
  "bitlen (numeral (Num.Bit1 n)) = bitlen (numeral n) + 1"
  by (subst compute_bitlen, simp)+

lemmas eval_simps =
  round64_def nearest_def quantum_def round_half_even_def expo_def Let_def
  bitlen_numeral_simps floor_rat_numeral ceiling_rat_numeral

lemma binary64_1: "binary64 1"
  by (simp add: binary64_def eval_simps)

lemma binary64_100: "binary64 100"
  by (simp add: binary64_def eval_simps)

lemma sub_40_17: "js_sub (Num 40) (Num 17) = Num 23"
  by (simp add: js_sub_def eval_simps)

lemma div_23_40: "js_div (Num 23) (Num 40) = Num (2589569785738035 / 4503599627370496)"
  by (simp add: js_div_def eval_simps)

lemma mul_575_100:
  "js_mul (Num (2589569785738035 / 4503599627370496)) (Num 100)
     = Num (8092405580431359 / 140737488355328)"
  by (simp add: js_mul_def eval_simps)

lemma round_5749: "Math_round (Num (8092405580431359 / 140737488355328)) = Num 57"
  by (simp add: floor_rat_numeral)

lemma sub_1000_750: "js_sub (Num 1000) (Num 750) = Num 250"
  by (simp add: js_sub_def eval_simps)

lemma div_250_1000: "js_div (Num 250) (Num 1000) = Num (1 / 4)"
  by (simp add: js_div_def eval_simps)

lemma mul_quarter_100: "js_mul (Num (1 / 4)) (Num 100) = Num 25"
  by (simp add: js_mul_def eval_simps)


lemma binary64_fix:
  assumes "binary64 b" "0 < b"
  shows "nearest b = b \<and> b < 2 ^ 1024"
proof -
  from assms have r: "round64 b = Num b" by (simp add: binary64_def)
  have big: "\<not> 2 ^ 1024 \<le> nearest b"
    using r assms(2) by (auto simp add: round64_def split: if_splits)
  have "nearest b = b"
    using r assms(2) big by (auto simp add: round64_def split: if_splits)
  with big show ?thesis by simp
qed

lemma round64_range:
  assumes "0 < x" "x \<le> b" "binary64 b"
  shows "\<exists>r. round64 x = Num r \<and> 0 \<le> r \<and> r \<le> b"
proof -
  have b: "0 < b" using assms by simp
  from binary64_fix [OF assms(3) b] have fixed: "nearest b = b" and fin: "b < 2 ^ 1024"
    by simp_all
  have le: "nearest x \<le> b" using nearest_mono [OF assms(1,2)] fixed by simp
  have ge: "0 \<le> nearest x" using assms(1) by (simp add: nearest_nonneg)
  have "\<not> 2 ^ 1024 \<le> nearest x" using le fin by simp
  then have "round64 x = Num (nearest x)"
    using assms(1) by (simp add: round64_def)
  with le ge show ?thesis by simp
qed

lemma round64_minus:
  assumes "binary64 q" "q \<noteq> 0"
  shows "round64 (- q) = Num (- q)"
proof -
  from assms have r: "round64 q = Num q" by (simp add: binary64_def)
  have big: "\<not> 2 ^ 1024 \<le> nearest \<bar>q\<bar>"
    using r assms(2) by (auto simp add: round64_def split: if_splits)
  have nz: "nearest \<bar>q\<bar> \<noteq> 0"
    using r assms(2) big by (auto simp add: round64_def split: if_splits)
  have "sgn q * nearest \<bar>q\<bar> = q"
    using r assms(2) big nz by (simp add: round64_def split: if_splits)
  then have "sgn (- q) * nearest \<bar>- q\<bar> = - q" by (simp add: sgn_minus)
  then show ?thesis using assms(2) big nz by (simp add: round64_def)
qed

lemma percent_range:
  assumes "binary64 p" "0 < p" "0 \<le> q" "q \<le> p"
  shows "\<exists>n. Math_round (js_mul (js_div (js_sub (Num p) (Num q)) (Num p)) (Num 100))
            = Num (of_int n) \<and> 0 \<le> n \<and> n \<le> 100"
proof -
  obtain s where s: "js_sub (Num p) (Num q) = Num s" "0 \<le> s" "s \<le> p"
  proof (cases "p = q")
    case True
    then have "js_sub (Num p) (Num q) = Num 0" by (simp add: js_sub_def)
    then show thesis using that assms(2) by simp
  next
    case False
    then have "js_sub (Num p) (Num q) = round64 (p - q)" by (simp add: js_sub_def)
    moreover have "0 < p - q" "p - q \<le> p" using False assms by simp_all
    ultimately show thesis using round64_range [of "p - q" p] assms(1) that by auto
  qed
  obtain t where t: "js_div (Num s) (Num p) = Num t" "0 \<le> t" "t \<le> 1"
  proof (cases "s = 0")
    case True
    then have "js_div (Num s) (Num p) = Num 0"
      using assms(2) by (simp add: js_div_def zero_of_def)
    then show thesis using that by simp
  next
    case False
    then have "js_div (Num s) (Num p) = round64 (s / p)"
      using assms(2) by (simp add: js_div_def)
    moreover have "0 < s / p" "s / p \<le> 1" using False s assms(2) by simp_all
    ultimately show thesis using round64_range [of "s / p" 1] binary64_1 that by auto
  qed
  obtain u where u: "js_mul (Num t) (Num 100) = Num u" "0 \<le> u" "u \<le> 100"
  proof (cases "t = 0")
    case True
    then have "js_mul (Num t) (Num 100) = Num 0" by (simp add: js_mul_def zero_of_def)
    then show thesis using that by simp
  next
    case False
    then have "js_mul (Num t) (Num 100) = round64 (t * 100)" by (simp add: js_mul_def)
    moreover have "0 < t * 100" "t * 100 \<le> 100" using False t by simp_all
    ultimately show thesis using round64_range [of "t * 100" 100] binary64_100 that by auto
  qed
  have lo: "0 \<le> \<lfloor>u + 1 / 2\<rfloor>" using u(2) by simp
  have "u + 1 / 2 < of_int 101" using u(3) by simp
  then have "\<lfloor>u + 1 / 2\<rfloor> < 101" by (simp only: floor_less_iff)
  then have hi: "\<lfloor>u + 1 / 2\<rfloor> \<le> 100" by simp
  have "Math_round (Num u) = Num (of_int \<lfloor>u + 1 / 2\<rfloor>)" using u(2) by simp
  with lo hi show ?thesis unfolding s(1) t(1) u(1) by blast
qed

lemma div_by_zero: "is_zero b \<Longrightarrow> js_div a b \<in> {NaN, PosInf, NegInf}"
  by (cases b) (auto simp add: js_div_def inf_of_def)

lemma mul_special: "x \<in> {NaN, PosInf, NegInf} \<Longrightarrow> js_mul x (Num 100) \<in> {NaN, PosInf, NegInf}"
  by (auto simp add: js_mul_def inf_of_def)

lemma round_special: "x \<in> {NaN, PosInf, NegInf} \<Longrightarrow> Math_round x = x"
  by auto

lemma discountPercent_zero_price:
  assumes "is_zero (ToNumber (originalPrice c))"
  shows "discountPercent (Some c) \<in> {NaN, PosInf, NegInf}"
proof -
  let ?q = "js_div (js_sub (ToNumber (originalPrice c)) (ToNumber (discountedPrice c)))
      (ToNumber (originalPrice c))"
  have "?q \<in> {NaN, PosInf, NegInf}" using assms by (rule div_by_zero)
  then have m: "js_mul ?q (Num 100) \<in> {NaN, PosInf, NegInf}" by (rule mul_special)
  then have "Math_round (js_mul ?q (Num 100)) = js_mul ?q (Num 100)" by (rule round_special)
  with m show ?thesis by (simp add: discountPercent_def)
qed

lemma discountPercent_plus_zero:
  assumes "originalPrice c = Some (Num 0)" "discountedPrice c = Some (Num q)" "binary64 q"
  shows "discountPercent (Some c) = (if q = 0 then NaN else if 0 < q then NegInf else PosInf)"
proof (cases "q = 0")
  case True
  then show ?thesis using assms by (simp add: discountPercent_def js_sub_def js_div_def js_mul_def)
next
  case False
  then have "js_sub (Num 0) (Num q) = Num (- q)"
    using round64_minus [OF assms(3)] by (simp add: js_sub_def)
  then show ?thesis
    using False assms by (simp add: discountPercent_def js_div_def js_mul_def inf_of_def)
qed

text \<open>
  C4, as stated, fails: with \<open>originalPrice = 0\<close> and \<open>discountedPrice = 0\<close> the
  quotient is \<open>0 / 0\<close>, and \<open>discountPercent\<close> is \<open>NaN\<close>, not 0.
\<close>

theorem discountPercent_zero_price_counterexample:
  "discountPercent (Some (sample_course (Num 0) (Num 0) None None)) = NaN
   \<and> discountPercent (Some (sample_course (Num 0) (Num 0) None None)) \<noteq> Num 0"
  by (simp add: discountPercent_def sample_course_def js_sub_def js_div_def js_mul_def)

text \<open>
  C4, amended. With no course \<open>discountPercent\<close> is 0. For a loaded course it is
  \<open>Math.round(((originalPrice - discountedPrice) / originalPrice) * 100)\<close> evaluated in
  binary64 arithmetic, every operation rounding its result: 1000 and 750 give 25, while
  40 and 17 give 57 although the exact percentage is 57.5. For finite prices with
  \<open>0 \<le> discountedPrice \<le> originalPrice\<close> and \<open>originalPrice > 0\<close> it is an integer
  between 0 and 100, so never negative. Nothing is raised and nothing is clamped when
  \<open>originalPrice\<close> is zero or absent: for a zero the value is \<open>NaN\<close> or an infinity
  (with \<open>+0\<close>: \<open>NaN\<close> when \<open>discountedPrice\<close> is 0, \<open>-Infinity\<close> when it is positive,
  \<open>+Infinity\<close> when it is negative); for an absent one it is \<open>NaN\<close>.
\<close>

theorem discountPercent_amended:
  "discountPercent None = Num 0
   \<and> discountPercent (Some c) =
       Math_round (js_mul (js_div (js_sub (ToNumber (originalPrice c)) (ToNumber (discountedPrice c)))
          (ToNumber (originalPrice c))) (Num 100))
   \<and> (originalPrice c = Some (Num p) \<and> discountedPrice c = Some (Num q)
        \<and> binary64 p \<and> 0 \<le> q \<and> q \<le> p \<and> 0 < p \<longrightarrow>
        (\<exists>n. discountPercent (Some c) = Num (of_int n) \<and> 0 \<le> n \<and> n \<le> 100))
   \<and> (is_zero (ToNumber (originalPrice c)) \<longrightarrow> discountPercent (Some c) \<in> {NaN, PosInf, NegInf})
   \<and> (originalPrice c = Some (Num 0) \<and> discountedPrice c = Some (Num q) \<and> binary64 q \<longrightarrow>
        discountPercent (Some c) = (if q = 0 then NaN else if 0 < q then NegInf else PosInf))
   \<and> (originalPrice c = None \<longrightarrow> discountPercent (Some c) = NaN)
   \<and> discountPercent (Some (sample_course (Num 1000) (Num 750) specs ps)) = Num 25
   \<and> discountPercent (Some (sample_course (Num 40) (Num 17) specs ps)) = Num 57"
proof -
  have none: "discountPercent None = Num 0"
    by (simp add: discountPercent_def)
  have formula: "discountPercent (Some c) =
       Math_round (js_mul (js_div (js_sub (ToNumber (originalPrice c)) (ToNumber (discountedPrice c)))
          (ToNumber (originalPrice c))) (Num 100))"
    by (simp add: discountPercent_def)
  have range: "originalPrice c = Some (Num p) \<and> discountedPrice c = Some (Num q)
        \<and> binary64 p \<and> 0 \<le> q \<and> q \<le> p \<and> 0 < p \<longrightarrow>
        (\<exists>n. discountPercent (Some c) = Num (of_int n) \<and> 0 \<le> n \<and> n \<le> 100)"
    using percent_range [of p q] by (auto simp add: discountPercent_def)
  have zero: "is_zero (ToNumber (originalPrice c)) \<longrightarrow>
      discountPercent (Some c) \<in> {NaN, PosInf, NegInf}"
    using discountPercent_zero_price [of c] by blast
  have plus_zero: "originalPrice c = Some (Num 0) \<and> discountedPrice c = Some (Num q) \<and> binary64 q \<longrightarrow>
        discountPercent (Some c) = (if q = 0 then NaN else if 0 < q then NegInf else PosInf)"
    using discountPercent_plus_zero [of c q] by blast
  have absent: "originalPrice c = None \<longrightarrow> discountPercent (Some c) = NaN"
    by (simp add: discountPercent_def js_sub_def js_div_def js_mul_def)
  have quarter: "discountPercent (Some (sample_course (Num 1000) (Num 750) specs ps)) = Num 25"
    by (simp add: discountPercent_def sample_course_def sub_1000_750 div_250_1000 mul_quarter_100
        floor_rat_numeral)
  have inexact: "discountPercent (Some (sample_course (Num 40) (Num 17) specs ps)) = Num 57"
    by (simp add: discountPercent_def sample_course_def sub_40_17 div_23_40 mul_575_100
        floor_rat_numeral)
  from none formula range zero plus_zero absent quarter inexact show ?thesis
    by (simp only: simp_thms)
qed

theorem discountPercent_amended_witness:
  "binary64 200
   \<and> (\<exists>n. discountPercent (Some (sample_course (Num 200) (Num 50) None None)) = Num (of_int n)
          \<and> 0 \<le> n \<and> n \<le> 100)
   \<and> binary64 5
   \<and> discountPercent (Some (sample_course (Num 0) (Num 5) None None)) = NegInf
   \<and> discountPercent (Some ((sample_course (Num 0) (Num 5) None None)\<lparr>originalPrice := None\<rparr>))
       = NaN"
proof -
  let ?paid = "sample_course (Num 200) (Num 50) None None"
  let ?free = "sample_course (Num 0) (Num 5) None None"
  have b200: "binary64 200" and b5: "binary64 5"
    by (simp_all add: binary64_def eval_simps)
  have "originalPrice ?paid = Some (Num 200) \<and> discountedPrice ?paid = Some (Num 50)
      \<and> binary64 200 \<and> (0::rat) \<le> 50 \<and> (50::rat) \<le> 200 \<and> (0::rat) < 200"
    using b200 by (simp add: sample_course_def)
  with discountPercent_amended [of ?paid 200 50]
  have range: "\<exists>n. discountPercent (Some ?paid) = Num (of_int n) \<and> 0 \<le> n \<and> n \<le> 100"
    by blast
  have "originalPrice ?free = Some (Num 0) \<and> discountedPrice ?free = Some (Num 5) \<and> binary64 5"
    using b5 by (simp add: sample_course_def)
  with discountPercent_amended [of ?free 0 5]
  have "discountPercent (Some ?free) = (if (5::rat) = 0 then NaN else if (0::rat) < 5 then NegInf else PosInf)"
    by blast
  then have zero: "discountPercent (Some ?free) = NegInf" by simp
  have "originalPrice (?free\<lparr>originalPrice := None\<rparr>) = None" by simp
  with discountPercent_amended [of "?free\<lparr>originalPrice := None\<rparr>" 0 5]
  have absent: "discountPercent (Some (?free\<lparr>originalPrice := None\<rparr>)) = NaN"
    by blast
  from b200 range b5 zero absent show ?thesis by (simp only: simp_thms)
qed

text \<open>
  C9, as stated, fails: a record whose own \<open>technicalSpecs\<close> list is present but empty
  yields that empty list, not the fallback triple.
\<close>

theorem technicalSpecs_empty_list_counterexample:
  "technicalSpecs_memo (Some (sample_course (Num 1000) (Num 750) (Some []) None)) = []
   \<and> technicalSpecs_memo (Some (sample_course (Num 1000) (Num 750) (Some []) None))
       \<noteq> fallback_specs (sample_course (Num 1000) (Num 750) (Some []) None)"
  by (simp add: technicalSpecs_memo_def sample_course_def fallback_specs_def)

text \<open>
  C9, amended. \<open>technicalSpecs\<close> is the record's own list whenever that list is present,
  empty or not; when it is absent it is the fallback triple, labelled Duration, Mode and
  Language in this order, whose values are the number of syllabus phases (6 when there
  are none) followed by \<open>" Months"\<close>, the status and the language.
\<close>

theorem technicalSpecs_amended:
  "(technicalSpecs c = Some specs \<longrightarrow> technicalSpecs_memo (Some c) = specs)
   \<and> (technicalSpecs c = None \<longrightarrow>
        technicalSpecs_memo (Some c) = fallback_specs c
        \<and> map label (fallback_specs c) = [''Duration'', ''Mode'', ''Language'']
        \<and> map spec_value (fallback_specs c) =
            [show_nat (if length (syllabusPhases_memo (Some c)) = 0 then 6
                       else length (syllabusPhases_memo (Some c))) @ '' Months'',
             status_text (status c), language c])"
proof -
  have own: "technicalSpecs c = Some specs \<longrightarrow> technicalSpecs_memo (Some c) = specs"
    by (simp add: technicalSpecs_memo_def)
  have fb: "technicalSpecs c = None \<longrightarrow> technicalSpecs_memo (Some c) = fallback_specs c"
    by (simp add: technicalSpecs_memo_def)
  have labels: "map label (fallback_specs c) = [''Duration'', ''Mode'', ''Language'']"
    by (simp add: fallback_specs_def)
  have months: "duration_months c = (if length (syllabusPhases_memo (Some c)) = 0 then 6
                       else length (syllabusPhases_memo (Some c)))"
    by (simp add: duration_months_def syllabusPhases_memo_def split: option.splits)
  have vals: "map spec_value (fallback_specs c) =
            [show_nat (duration_months c) @ '' Months'', status_text (status c), language c]"
    by (simp add: fallback_specs_def)
  from own fb labels months vals show ?thesis by (simp only: simp_thms)
qed

theorem technicalSpecs_amended_witness:
  "technicalSpecs_memo (Some (sample_course (Num 1000) (Num 750) (Some []) None)) = []
   \<and> map spec_value (technicalSpecs_memo (Some (sample_course (Num 1000) (Num 750) None
         (Some [sample_phase ''Foundations'', sample_phase ''Projects'']))))
      = [''2 Months'', ''Online'', ''English'']"
  using technicalSpecs_amended [of "sample_course (Num 1000) (Num 750) (Some []) None" "[]"]
    technicalSpecs_amended [of "sample_course (Num 1000) (Num 750) None
         (Some [sample_phase ''Foundations'', sample_phase ''Projects''])"]
  by (simp add: sample_course_def syllabusPhases_memo_def)

section \<open>Properties of the detail page's load\<close>

text \<open>
  C7, as stated, fails: mounted without an \<open>id\<close>, the page shows the message
  \<open>Course ID is missing\<close>, not \<open>Course ID is required\<close>.
\<close>

theorem missing_id_message_counterexample:
  "error (page (detail_mount None)) = Some ''Course ID is missing''
   \<and> error (page (detail_mount None)) \<noteq> Some ''Course ID is required''"
  by (simp add: detail_mount_def detail_effect_def truthy_id_def new_run_def page_initial_def)

text \<open>
  C7, amended. A load with an empty or absent \<open>id\<close> makes no gateway call and ends at
  once with the error \<open>Course ID is missing\<close> and \<open>loading\<close> false, the course left as
  it was; a load with a non-empty \<open>id\<close> calls \<open>getCourseById(id)\<close>, with \<open>loading\<close>
  true and the error cleared. The message \<open>Course ID is required\<close> belongs to the guard
  inside \<open>fetchCourse\<close>, which would also end without a gateway call, but the effect
  calls \<open>fetchCourse\<close> only with a non-empty \<open>id\<close>.
\<close>

theorem load_id_guard:
  "(\<not> truthy_id i \<longrightarrow>
      calls (detail_effect i d) = calls d
      \<and> error (page (detail_effect i d)) = Some ''Course ID is missing''
      \<and> loading (page (detail_effect i d)) = False
      \<and> course (page (detail_effect i d)) = course (page d)
      \<and> calls (fetchCourse_start i d) = calls d
      \<and> error (page (fetchCourse_start i d)) = Some ''Course ID is required'')
   \<and> (truthy_id i \<longrightarrow>
      (\<exists>s. i = Some s \<and> calls (detail_effect i d) = calls d @ [s])
      \<and> error (page (detail_effect i d)) = None
      \<and> loading (page (detail_effect i d)) = True)"
proof -
  have falsy: "\<not> truthy_id i \<longrightarrow>
      calls (detail_effect i d) = calls d
      \<and> error (page (detail_effect i d)) = Some ''Course ID is missing''
      \<and> loading (page (detail_effect i d)) = False
      \<and> course (page (detail_effect i d)) = course (page d)"
    by (simp add: detail_effect_def new_run_def)
  have inner: "\<not> truthy_id i \<longrightarrow>
      calls (fetchCourse_start i d) = calls d
      \<and> error (page (fetchCourse_start i d)) = Some ''Course ID is required''"
    by (auto simp add: truthy_id_def fetchCourse_start_def fetchCourse_catch_def
        fetchCourse_finally_def errorMessage_def Let_def split: option.splits list.splits)
  have truthy: "truthy_id i \<longrightarrow>
      (\<exists>s. i = Some s \<and> calls (detail_effect i d) = calls d @ [s])
      \<and> error (page (detail_effect i d)) = None
      \<and> loading (page (detail_effect i d)) = True"
    by (auto simp add: detail_effect_def new_run_def truthy_id_def fetchCourse_start_def Let_def
        split: option.splits list.splits)
  from falsy inner truthy show ?thesis by blast
qed

theorem load_id_guard_witness:
  "calls (detail_effect (Some []) (detail_mount (Some ''c1''))) = [''c1'']
   \<and> error (page (detail_effect (Some []) (detail_mount (Some ''c1'')))) = Some ''Course ID is missing''
   \<and> calls (detail_effect (Some ''c2'') (detail_mount (Some ''c1''))) = [''c1'', ''c2'']"
proof -
  have before: "calls (detail_mount (Some ''c1'')) = [''c1'']"
    by (simp add: detail_mount_def detail_effect_def truthy_id_def fetchCourse_start_def
        new_run_def)
  have empty: "\<not> truthy_id (Some [])" and other: "truthy_id (Some ''c2'')"
    by (simp_all add: truthy_id_def)
  from empty load_id_guard [of "Some []" "detail_mount (Some ''c1'')"]
  have no_call: "calls (detail_effect (Some []) (detail_mount (Some ''c1''))) = [''c1'']"
    and message: "error (page (detail_effect (Some []) (detail_mount (Some ''c1''))))
        = Some ''Course ID is missing''"
    by (simp_all add: before)
  from other load_id_guard [of "Some ''c2''" "detail_mount (Some ''c1'')"]
  have "\<exists>s. Some ''c2'' = Some s
      \<and> calls (detail_effect (Some ''c2'') (detail_mount (Some ''c1''))) = [''c1''] @ [s]"
    by (simp add: before)
  then have call: "calls (detail_effect (Some ''c2'') (detail_mount (Some ''c1''))) = [''c1'', ''c2'']"
    by auto
  from no_call message call show ?thesis by (simp only: simp_thms)
qed

section \<open>Properties of the fetch lifecycle\<close>

lemma cleanup_all_off:
  assumes "stale_runs_off c"
  shows "list_all Not (isMounted (cleanup c))"
proof (cases "isMounted c" rule: rev_cases)
  case Nil
  then show ?thesis by (simp add: cleanup_def)
next
  case (snoc ys y)
  with assms show ?thesis
    by (simp add: cleanup_def stale_runs_off_def)
qed

lemma cleanup_stale: "stale_runs_off c \<Longrightarrow> stale_runs_off (cleanup c)"
  using cleanup_all_off [of c]
  by (cases "isMounted (cleanup c)" rule: rev_cases) (simp_all add: stale_runs_off_def)

lemma new_run_stale: "list_all Not (isMounted c) \<Longrightarrow> stale_runs_off (new_run c)"
  by (simp add: stale_runs_off_def new_run_def)

lemma stale_flag_off:
  assumes "stale_runs_off c" and "Suc g < length (isMounted c)"
  shows "\<not> isMounted c ! g"
proof -
  have "g < length (butlast (isMounted c))" using assms(2) by simp
  moreover have "butlast (isMounted c) ! g = isMounted c ! g"
    using assms(2) by (simp add: nth_butlast)
  ultimately show ?thesis
    using assms(1) by (auto simp add: stale_runs_off_def list_all_length)
qed

lemma all_off_flag: "list_all Not fl \<Longrightarrow> g < length fl \<Longrightarrow> \<not> fl ! g"
  by (simp add: list_all_length)

lemma fetchCourse_settled_off: "fetchCourse_settled False out p = Inr p"
  by (cases out)
    (simp_all add: fetchCourse_settled_def fetchCourse_try_def fetchCourse_catch_def
      fetchCourse_finally_def)

lemma fetchCourses_settled_off: "fetchCourses_settled False out h = Inr h"
  by (cases out)
    (simp_all add: fetchCourses_settled_def fetchCourses_try_def fetchCourses_catch_def
      fetchCourses_finally_def)

lemma isMounted_detail_effect: "isMounted (detail_effect i d) = isMounted d @ [True]"
  by (simp add: detail_effect_def fetchCourse_start_def new_run_def Let_def
      split: option.splits list.splits)

lemma isMounted_home_effect: "isMounted (home_effect c) = isMounted c @ [True]"
  by (simp add: home_effect_def fetchCourses_start_def new_run_def)

lemma detail_effect_stale:
  "list_all Not (isMounted d) \<Longrightarrow> stale_runs_off (detail_effect i d)"
  by (simp add: stale_runs_off_def isMounted_detail_effect)

lemma home_effect_stale:
  "list_all Not (isMounted c) \<Longrightarrow> stale_runs_off (home_effect c)"
  by (simp add: stale_runs_off_def isMounted_home_effect)

lemma detail_step_stale: "stale_runs_off d \<Longrightarrow> stale_runs_off (detail_step d e)"
proof (cases e)
  case (ChangeId i)
  assume "stale_runs_off d"
  then show ?thesis
    using ChangeId by (simp add: detail_effect_stale cleanup_all_off)
next
  case (Settle g out)
  assume "stale_runs_off d"
  then show ?thesis
    using Settle by (simp add: stale_runs_off_def split: sum.splits)
next
  case (ClickPhase i)
  assume "stale_runs_off d"
  then show ?thesis
    using ClickPhase by (simp add: stale_runs_off_def)
next
  case Unmount
  assume "stale_runs_off d"
  then show ?thesis
    using Unmount by (simp add: cleanup_stale)
qed

lemma home_step_stale: "stale_runs_off c \<Longrightarrow> stale_runs_off (home_step c e)"
  by (cases e)
    (simp_all add: home_effect_stale cleanup_all_off cleanup_stale,
     simp_all add: stale_runs_off_def split: sum.splits)

lemma detail_foldl_stale:
  "stale_runs_off d \<Longrightarrow> stale_runs_off (foldl detail_step d es)"
  by (induction es arbitrary: d) (simp_all add: detail_step_stale)

lemma home_foldl_stale:
  "stale_runs_off c \<Longrightarrow> stale_runs_off (foldl home_step c es)"
  by (induction es arbitrary: c) (simp_all add: home_step_stale)

lemma detail_run_stale: "stale_runs_off (detail_run i es)"
  unfolding detail_run_def detail_mount_def
  by (rule detail_foldl_stale) (simp add: detail_effect_stale)

lemma home_run_stale: "stale_runs_off (home_run es)"
  unfolding home_run_def home_mount_def
  by (rule home_foldl_stale) (simp add: home_effect_stale)

lemma detail_settle_off:
  "g < length (isMounted d) \<Longrightarrow> \<not> isMounted d ! g \<Longrightarrow> detail_step d (Settle g out) = d"
  by (simp add: fetchCourse_settled_off)

lemma detail_settle_none:
  "\<not> g < length (isMounted d) \<Longrightarrow> detail_step d (Settle g out) = d"
  by simp

lemma home_settle_off:
  "g < length (isMounted c) \<Longrightarrow> \<not> isMounted c ! g \<Longrightarrow> home_step c (HomeSettle g out) = c"
  by (simp add: fetchCourses_settled_off)

lemma isMounted_detail_settle: "isMounted (detail_step d (Settle g out)) = isMounted d"
  by (simp split: sum.splits)

lemma isMounted_home_settle: "isMounted (home_step c (HomeSettle g out)) = isMounted c"
  by (simp split: sum.splits)

text \<open>
  C1. In every state either page can reach, the completion (resolve or reject) of a fetch
  \<open>a\<close> that was issued before another fetch \<open>b\<close> changes nothing: the state after the
  late completion is the state before it. In particular, when \<open>a\<close> completes after \<open>b\<close>
  has completed, the state is the one \<open>b\<close>'s completion produced. Only the completion
  of the most recently issued fetch can write the visible state.
\<close>

theorem stale_completion_ignored:
  "(a < b \<and> b < length (isMounted (detail_run i es)) \<longrightarrow>
      detail_run i (es @ [Settle a out]) = detail_run i es
      \<and> detail_run i (es @ [Settle b out', Settle a out]) = detail_run i (es @ [Settle b out']))
   \<and> (a < b \<and> b < length (isMounted (home_run hs)) \<longrightarrow>
      home_run (hs @ [HomeSettle a hout]) = home_run hs
      \<and> home_run (hs @ [HomeSettle b hout', HomeSettle a hout]) = home_run (hs @ [HomeSettle b hout']))"
proof -
  have detail: "detail_run i (tr @ [Settle a out]) = detail_run i tr"
    if "a < b" and "b < length (isMounted (detail_run i tr))" for tr
  proof -
    have "Suc a < length (isMounted (detail_run i tr))" using that by simp
    then have off: "\<not> isMounted (detail_run i tr) ! a"
      using detail_run_stale by (rule stale_flag_off [rotated])
    have "detail_step (detail_run i tr) (Settle a out) = detail_run i tr"
      using that off by (intro detail_settle_off) simp_all
    then show ?thesis by (simp add: detail_run_def)
  qed
  have detail_after: "detail_run i (es @ [Settle b out', Settle a out]) = detail_run i (es @ [Settle b out'])"
    if "a < b" and "b < length (isMounted (detail_run i es))"
  proof -
    have "isMounted (detail_run i (es @ [Settle b out'])) = isMounted (detail_run i es)"
      by (simp add: detail_run_def isMounted_detail_settle del: detail_step.simps)
    then have "detail_run i ((es @ [Settle b out']) @ [Settle a out]) = detail_run i (es @ [Settle b out'])"
      using that by (intro detail) simp_all
    then show ?thesis by simp
  qed
  have catalogue: "home_run (tr @ [HomeSettle a hout]) = home_run tr"
    if "a < b" and "b < length (isMounted (home_run tr))" for tr
  proof -
    have "Suc a < length (isMounted (home_run tr))" using that by simp
    then have off: "\<not> isMounted (home_run tr) ! a"
      using home_run_stale by (rule stale_flag_off [rotated])
    have "home_step (home_run tr) (HomeSettle a hout) = home_run tr"
      using that off by (intro home_settle_off) simp_all
    then show ?thesis by (simp add: home_run_def)
  qed
  have catalogue_after:
    "home_run (hs @ [HomeSettle b hout', HomeSettle a hout]) = home_run (hs @ [HomeSettle b hout'])"
    if "a < b" and "b < length (isMounted (home_run hs))"
  proof -
    have "isMounted (home_run (hs @ [HomeSettle b hout'])) = isMounted (home_run hs)"
      by (simp add: home_run_def isMounted_home_settle del: home_step.simps)
    then have "home_run ((hs @ [HomeSettle b hout']) @ [HomeSettle a hout])
        = home_run (hs @ [HomeSettle b hout'])"
      using that by (intro catalogue) simp_all
    then show ?thesis by simp
  qed
  from detail [of es] detail_after catalogue [of hs] catalogue_after show ?thesis by blast
qed

theorem stale_completion_ignored_witness:
  "(0::nat) < 1
   \<and> 1 < length (isMounted (detail_run (Some ''c1'') [ChangeId (Some ''c2'')]))
   \<and> detail_run (Some ''c1'')
        ([ChangeId (Some ''c2'')] @ [Settle 1 (Resolved None), Settle 0 (Rejected (Error ''timeout''))])
      = detail_run (Some ''c1'') ([ChangeId (Some ''c2'')] @ [Settle 1 (Resolved None)])
   \<and> 1 < length (isMounted (home_run [RunEffect]))
   \<and> home_run ([RunEffect] @ [HomeSettle 1 (Resolved (Some [])), HomeSettle 0 (Rejected NotAnError)])
      = home_run ([RunEffect] @ [HomeSettle 1 (Resolved (Some []))])"
proof -
  have issued: "1 < length (isMounted (detail_run (Some ''c1'') [ChangeId (Some ''c2'')]))"
    by (simp add: detail_run_def detail_mount_def isMounted_detail_effect cleanup_def
        detail_effect_def truthy_id_def fetchCourse_start_def new_run_def)
  have hissued: "1 < length (isMounted (home_run [RunEffect]))"
    by (simp add: home_run_def home_mount_def isMounted_home_effect cleanup_def)
  from issued hissued
    stale_completion_ignored [of 0 1 "Some ''c1''" "[ChangeId (Some ''c2'')]"
      "Rejected (Error ''timeout'')" "Resolved None" "[RunEffect]" "Rejected NotAnError"
      "Resolved (Some [])"]
  show ?thesis by simp
qed

text \<open>
  C3. After teardown the completion of any fetch generation, resolved or rejected, leaves
  the state of either page as it is, and the fetch function ends normally: with the flag
  off it returns the state it was given and no error escapes it.
\<close>

theorem completion_after_teardown_ignored:
  "detail_run i (es @ [Unmount, Settle g out]) = detail_run i (es @ [Unmount])
   \<and> fetchCourse_settled False out p = Inr p
   \<and> home_run (hs @ [HomeUnmount, HomeSettle g hout]) = home_run (hs @ [HomeUnmount])
   \<and> fetchCourses_settled False hout h = Inr h"
proof -
  have off: "list_all Not (isMounted (cleanup (detail_run i es)))"
    using detail_run_stale by (rule cleanup_all_off)
  have "detail_step (cleanup (detail_run i es)) (Settle g out) = cleanup (detail_run i es)"
  proof (cases "g < length (isMounted (cleanup (detail_run i es)))")
    case True
    then show ?thesis using off by (intro detail_settle_off all_off_flag)
  next
    case False
    then show ?thesis by (rule detail_settle_none)
  qed
  then have detail: "detail_run i (es @ [Unmount, Settle g out]) = detail_run i (es @ [Unmount])"
    by (simp add: detail_run_def)
  have hoff: "list_all Not (isMounted (cleanup (home_run hs)))"
    using home_run_stale by (rule cleanup_all_off)
  have "home_step (cleanup (home_run hs)) (HomeSettle g hout) = cleanup (home_run hs)"
  proof (cases "g < length (isMounted (cleanup (home_run hs)))")
    case True
    then show ?thesis using hoff by (intro home_settle_off all_off_flag)
  next
    case False
    then show ?thesis by simp
  qed
  then have catalogue:
    "home_run (hs @ [HomeUnmount, HomeSettle g hout]) = home_run (hs @ [HomeUnmount])"
    by (simp add: home_run_def)
  from detail catalogue fetchCourse_settled_off fetchCourses_settled_off show ?thesis
    by (simp only: simp_thms)
qed


text \<open>
  C8. After a load with a non-empty \<open>id\<close>, a fetch that resolves without a record
  leaves the page on the course-not-found screen. A fetch that rejects leaves a different
  state, with the error message set, and the page on the error screen whenever that
  message is not empty.
\<close>

theorem not_found_is_distinct:
  "truthy_id i \<longrightarrow>
     render (page (detail_step (detail_effect i (cleanup d0))
        (Settle (length (isMounted d0)) (Resolved None)))) = Inr NotFoundScreen
     \<and> page (detail_step (detail_effect i (cleanup d0)) (Settle (length (isMounted d0)) (Rejected err)))
        \<noteq> page (detail_step (detail_effect i (cleanup d0)) (Settle (length (isMounted d0)) (Resolved None)))
     \<and> (errorMessage err \<noteq> [] \<longrightarrow>
          render (page (detail_step (detail_effect i (cleanup d0))
            (Settle (length (isMounted d0)) (Rejected err)))) = Inr (ErrorScreen (errorMessage err)))"
proof
  assume t: "truthy_id i"
  let ?d = "detail_effect i (cleanup d0)"
  let ?g = "length (isMounted d0)"
  have fl: "isMounted ?d = isMounted (cleanup d0) @ [True]" by (rule isMounted_detail_effect)
  have len: "length (isMounted (cleanup d0)) = ?g" by (simp add: cleanup_def)
  have live: "?g < length (isMounted ?d)" "isMounted ?d ! ?g"
    using len by (simp_all add: fl nth_append)
  have begun: "error (page ?d) = None" "loading (page ?d)"
    using t by (auto simp add: detail_effect_def new_run_def truthy_id_def fetchCourse_start_def Let_def
        split: option.splits list.splits)
  have ok: "page (detail_step ?d (Settle ?g (Resolved None))) = (page ?d)\<lparr>course := None, loading := False\<rparr>"
    using live by (simp add: fetchCourse_settled_def fetchCourse_try_def fetchCourse_finally_def)
  have bad: "page (detail_step ?d (Settle ?g (Rejected err)))
      = (page ?d)\<lparr>error := Some (errorMessage err), loading := False\<rparr>"
    using live by (simp add: fetchCourse_settled_def fetchCourse_try_def fetchCourse_finally_def
        fetchCourse_catch_def)
  have nf: "render (page (detail_step ?d (Settle ?g (Resolved None)))) = Inr NotFoundScreen"
    by (simp only: ok) (simp add: render_def begun)
  have "error (page (detail_step ?d (Settle ?g (Rejected err)))) \<noteq>
      error (page (detail_step ?d (Settle ?g (Resolved None))))"
    by (simp only: ok bad) (simp add: begun)
  then have ne: "page (detail_step ?d (Settle ?g (Rejected err))) \<noteq>
      page (detail_step ?d (Settle ?g (Resolved None)))"
    by metis
  have es: "errorMessage err \<noteq> [] \<longrightarrow>
      render (page (detail_step ?d (Settle ?g (Rejected err)))) = Inr (ErrorScreen (errorMessage err))"
    by (simp only: bad) (auto simp add: render_def split: list.splits)
  from nf ne es show "render (page (detail_step ?d (Settle ?g (Resolved None)))) = Inr NotFoundScreen
     \<and> page (detail_step ?d (Settle ?g (Rejected err))) \<noteq> page (detail_step ?d (Settle ?g (Resolved None)))
     \<and> (errorMessage err \<noteq> [] \<longrightarrow>
          render (page (detail_step ?d (Settle ?g (Rejected err)))) = Inr (ErrorScreen (errorMessage err)))"
    by blast
qed


lemma initial_cleanup:
  "cleanup \<lparr>isMounted = [], page = page_initial, param = i, calls = []\<rparr>
     = \<lparr>isMounted = [], page = page_initial, param = i, calls = []\<rparr>"
  by (simp add: cleanup_def)

theorem not_found_is_distinct_witness:
  "truthy_id (Some ''missing-id'')
   \<and> render (page (detail_step (detail_mount (Some ''missing-id'')) (Settle 0 (Resolved None))))
       = Inr NotFoundScreen
   \<and> render (page (detail_step (detail_mount (Some ''missing-id''))
         (Settle 0 (Rejected (Error ''Network Error'')))))
       = Inr (ErrorScreen ''Network Error'')"
proof -
  have t: "truthy_id (Some ''missing-id'')" by (simp add: truthy_id_def)
  have m: "errorMessage (Error ''Network Error'') = ''Network Error''"
    by (simp add: errorMessage_def)
  from t not_found_is_distinct [of "Some ''missing-id''"
      "\<lparr>isMounted = [], page = page_initial, param = Some ''missing-id'', calls = []\<rparr>"
      "Error ''Network Error''"]
  show ?thesis
    unfolding detail_mount_def initial_cleanup m by simp
qed

section \<open>Properties of the phase navigator\<close>

lemma id_change_page:
  "page (detail_run (Some ''c1'') id_change_trace)
     = \<lparr>loading = False, error = None, activePhase = 1, course = Some one_phase_course\<rparr>"
  by (simp add: detail_run_def id_change_trace_def detail_mount_def detail_effect_def
      truthy_id_def fetchCourse_start_def new_run_def page_initial_def cleanup_def
      fetchCourse_settled_def fetchCourse_try_def fetchCourse_finally_def
      click_header_def phase_headers_def render_def phase_content_def setActivePhase_def
      syllabusPhases_memo_def two_phase_course_def one_phase_course_def sample_course_def)

text \<open>
  C6 does not hold of the code: nothing resets \<open>activePhase\<close> when \<open>id\<close> changes.
  After phase 1 of a two-phase course was selected and the \<open>id\<close> changed to a course
  with one phase, the index is still 1 and rendering raises a \<open>TypeError\<close>.
\<close>

theorem activePhase_survives_id_change:
  "activePhase (page (detail_run (Some ''c1'') id_change_trace)) = 1
   \<and> course (page (detail_run (Some ''c1'') id_change_trace)) = Some one_phase_course
   \<and> length (syllabusPhases_memo (course (page (detail_run (Some ''c1'') id_change_trace)))) = 1
   \<and> render (page (detail_run (Some ''c1'') id_change_trace)) = Inl TypeError"
  by (simp add: id_change_page render_def phase_content_def syllabusPhases_memo_def
      one_phase_course_def sample_course_def)

text \<open>
  C5, as stated, fails: the index is not always within \<open>[0, phaseCount)\<close>. Before any
  course is loaded the index is 0 and there are 0 phases; and after the \<open>id\<close> change
  above the index is 1 with 1 phase.
\<close>

theorem activePhase_range_counterexample:
  "\<not> (0 \<le> activePhase (page (detail_mount (Some ''c1'')))
       \<and> activePhase (page (detail_mount (Some ''c1'')))
           < int (length (syllabusPhases_memo (course (page (detail_mount (Some ''c1'')))))))
   \<and> \<not> (0 \<le> activePhase (page (detail_run (Some ''c1'') id_change_trace))
       \<and> activePhase (page (detail_run (Some ''c1'') id_change_trace))
           < int (length (syllabusPhases_memo
                (course (page (detail_run (Some ''c1'') id_change_trace))))))"
  by (simp add: id_change_page syllabusPhases_memo_def one_phase_course_def sample_course_def
      detail_mount_def detail_effect_def truthy_id_def fetchCourse_start_def new_run_def
      page_initial_def)

lemma int_upt_mem: "i \<in> set (map int [0..<n]) \<longleftrightarrow> 0 \<le> i \<and> i < int n"
proof
  assume "i \<in> set (map int [0..<n])"
  then show "0 \<le> i \<and> i < int n" by auto
next
  assume "0 \<le> i \<and> i < int n"
  then have "nat i < n" and "i = int (nat i)" by arith+
  then show "i \<in> set (map int [0..<n])" by (metis atLeast0LessThan image_eqI lessThan_iff set_map set_upt)
qed

lemma phase_headers_mem:
  "i \<in> set (phase_headers p) \<longleftrightarrow>
     (\<exists>crs ph. render p = Inr (CourseScreen crs ph))
     \<and> 0 \<le> i \<and> i < int (length (syllabusPhases_memo (course p)))"
proof (cases "render p")
  case (Inl e)
  then show ?thesis by (simp add: phase_headers_def)
next
  case (Inr s)
  then show ?thesis
    by (cases s) (simp_all add: phase_headers_def int_upt_mem del: set_map set_upt)
qed

lemma click_header_in_range: "phase_in_range p \<Longrightarrow> phase_in_range (click_header i p)"
  by (auto simp add: click_header_def phase_headers_mem setActivePhase_def phase_in_range_def)

lemma click_header_course: "course (click_header i p) = course p"
  by (simp add: click_header_def setActivePhase_def)

lemma clicks_in_range:
  "phase_in_range (page d) \<Longrightarrow>
     phase_in_range (page (foldl detail_step d (map ClickPhase js)))
     \<and> course (page (foldl detail_step d (map ClickPhase js))) = course (page d)"
  by (induction js arbitrary: d) (simp_all add: click_header_in_range click_header_course)

lemma in_range_no_error: "phase_in_range p \<Longrightarrow> phase_content p \<noteq> Inl TypeError"
  by (auto simp add: phase_in_range_def phase_content_def Let_def)

lemma no_phases_no_headers:
  "length (syllabusPhases_memo (course p)) = 0 \<Longrightarrow> phase_headers p = [] \<and> phase_content p = Inr None"
proof (cases "render p")
  case (Inl e)
  assume "length (syllabusPhases_memo (course p)) = 0"
  with Inl show ?thesis by (simp add: phase_headers_def phase_content_def)
next
  case (Inr s)
  assume "length (syllabusPhases_memo (course p)) = 0"
  with Inr show ?thesis by (cases s) (simp_all add: phase_headers_def phase_content_def)
qed

lemma mount_activePhase: "activePhase (page (detail_mount i)) = 0"
  by (simp add: detail_mount_def detail_effect_def fetchCourse_start_def new_run_def
      page_initial_def fetchCourse_catch_def fetchCourse_finally_def Let_def
      split: option.splits list.splits)

lemma no_course_no_click: "course p = None \<Longrightarrow> click_header j p = p"
proof -
  assume "course p = None"
  then have "\<not> (\<exists>crs ph. render p = Inr (CourseScreen crs ph))"
    by (auto simp add: render_def split: if_splits option.splits list.splits sum.splits)
  then have "j \<notin> set (phase_headers p)" by (simp add: phase_headers_mem)
  then show ?thesis by (simp add: click_header_def)
qed

lemma first_phase_in_range: "activePhase p = 0 \<Longrightarrow> phase_in_range p"
  by (simp add: phase_in_range_def)

lemma settled_keeps_phase:
  "fetchCourse_settled m out p = Inr p' \<Longrightarrow> activePhase p' = activePhase p"
  by (cases out)
    (auto simp add: fetchCourse_settled_def fetchCourse_try_def fetchCourse_catch_def
      fetchCourse_finally_def split: if_splits)

lemma settled_runs_snoc: "settled_runs (es @ [e]) = settled_runs es @ settled_run e"
  by (simp add: settled_runs_def)

lemma load_inv_mount: "load_inv i [] (detail_mount i)"
proof -
  have "isMounted (detail_mount i) = [True]"
    by (simp add: detail_mount_def isMounted_detail_effect)
  moreover have "param (detail_mount i) = i"
    by (simp add: detail_mount_def detail_effect_def fetchCourse_start_def new_run_def Let_def
        split: option.splits list.splits)
  moreover have "course (page (detail_mount i)) = None"
    by (simp add: detail_mount_def detail_effect_def fetchCourse_start_def new_run_def Let_def
        page_initial_def fetchCourse_catch_def fetchCourse_finally_def
        split: option.splits list.splits)
  ultimately show ?thesis
    using mount_activePhase [of i]
    by (simp add: load_inv_def before_load_def first_phase_in_range)
qed

lemma load_inv_step:
  assumes inv: "load_inv i es d" and keep: "keeps_id i e"
    and fresh: "set (settled_run e) \<inter> set (settled_runs es) = {}"
  shows "load_inv i (es @ [e]) (detail_step d e)"
proof -
  from inv have len: "length (isMounted d) = 1" and par: "param d = i"
    and inr: "phase_in_range (page d)" and bef: "before_load es d"
    by (simp_all add: load_inv_def)
  show ?thesis
  proof (cases e)
    case (ChangeId j)
    with keep par have "detail_step d e = d" by simp
    moreover have "settled_runs (es @ [e]) = settled_runs es"
      using ChangeId by (simp add: settled_runs_snoc)
    ultimately show ?thesis using inv by (simp add: load_inv_def before_load_def)
  next
    case (Settle g out)
    show ?thesis
    proof (cases "g = 0")
      case True
      with fresh Settle have "0 \<notin> set (settled_runs es)" by simp
      with bef have zero: "activePhase (page d) = 0" by (simp add: before_load_def)
      obtain p' where p': "fetchCourse_settled (isMounted d ! 0) out (page d) = Inr p'"
        by (cases out) (simp_all add: fetchCourse_settled_def fetchCourse_try_def)
      then have "activePhase p' = 0" using zero settled_keeps_phase by metis
      then have ok: "phase_in_range p'" by (rule first_phase_in_range)
      have step: "detail_step d e = d\<lparr>page := p'\<rparr>"
        using Settle True len p' by simp
      have "0 \<in> set (settled_runs (es @ [e]))"
        using Settle True by (simp add: settled_runs_snoc)
      then show ?thesis
        unfolding step using ok len par by (simp add: load_inv_def before_load_def)
    next
      case False
      with len Settle have "detail_step d e = d" by simp
      moreover have "0 \<notin> set (settled_runs (es @ [e])) \<longleftrightarrow> 0 \<notin> set (settled_runs es)"
        using Settle False by (simp add: settled_runs_snoc)
      ultimately show ?thesis using inv by (simp add: load_inv_def before_load_def)
    qed
  next
    case (ClickPhase j)
    have step: "detail_step d e = d\<lparr>page := click_header j (page d)\<rparr>"
      using ClickPhase by simp
    have runs: "settled_runs (es @ [e]) = settled_runs es"
      using ClickPhase by (simp add: settled_runs_snoc)
    have ok: "phase_in_range (click_header j (page d))" using inr by (rule click_header_in_range)
    have "before_load (es @ [e]) (d\<lparr>page := click_header j (page d)\<rparr>)"
      using bef no_course_no_click [of "page d" j] by (auto simp add: before_load_def runs)
    then show ?thesis
      unfolding step using ok len par by (simp add: load_inv_def)
  next
    case Unmount
    then have step: "detail_step d e = cleanup d" by simp
    have runs: "settled_runs (es @ [e]) = settled_runs es"
      using Unmount by (simp add: settled_runs_snoc)
    show ?thesis
      unfolding step using inv by (simp add: load_inv_def before_load_def cleanup_def runs)
  qed
qed

lemma single_load_invariant: "single_load i es \<Longrightarrow> load_inv i es (detail_run i es)"
proof (induction es rule: rev_induct)
  case Nil
  show ?case using load_inv_mount by (simp add: detail_run_def)
next
  case (snoc e es)
  from snoc.prems have once: "single_load i es" and keep: "keeps_id i e"
    and fresh: "set (settled_run e) \<inter> set (settled_runs es) = {}"
    by (auto simp add: single_load_def settled_runs_snoc)
  have "detail_run i (es @ [e]) = detail_step (detail_run i es) e" by (simp add: detail_run_def)
  then show ?case using load_inv_step [OF snoc.IH [OF once] keep fresh] by simp
qed


lemma click_in_range_step:
  assumes "\<exists>crs ph. render (page d) = Inr (CourseScreen crs ph)"
    and "0 \<le> i" and "i < int (length (syllabusPhases_memo (course (page d))))"
  shows "detail_step d (ClickPhase i) = d\<lparr>page := (page d)\<lparr>activePhase := i\<rparr>\<rparr>"
proof -
  have "i \<in> set (phase_headers (page d))" using assms by (simp add: phase_headers_mem)
  then show ?thesis by (simp add: click_header_def setActivePhase_def)
qed

lemma click_out_of_range_step:
  assumes "i < 0 \<or> int (length (syllabusPhases_memo (course (page d)))) \<le> i"
  shows "detail_step d (ClickPhase i) = d"
proof -
  have "i \<notin> set (phase_headers (page d))" using assms by (auto simp add: phase_headers_mem)
  then show ?thesis by (simp add: click_header_def)
qed

text \<open>
  C5, amended. In every state reached from the mount while the \<open>id\<close> stays the same,
  the active phase is a valid index, \<open>0 \<le> activePhase < phaseCount\<close>, whenever there
  is at least one phase, and the syllabus panel never reads outside the phase list. A
  phase header exists for index \<open>i\<close> exactly when the course screen is shown and
  \<open>0 \<le> i < phaseCount\<close>; a click on it sets the active phase to \<open>i\<close> and changes
  nothing else; for \<open>i < 0\<close> or \<open>i \<ge> phaseCount\<close> there is no header and the state
  stays as it is. Clicks keep a valid index valid and leave the course alone. With no
  phases there is no header and no panel. At mount the index is 0.
\<close>

theorem phase_selection:
  "(single_load i0 es \<longrightarrow>
      phase_in_range (page (detail_run i0 es))
      \<and> phase_content (page (detail_run i0 es)) \<noteq> Inl TypeError)
   \<and> (i \<in> set (phase_headers p) \<longleftrightarrow>
      (\<exists>crs ph. render p = Inr (CourseScreen crs ph))
      \<and> 0 \<le> i \<and> i < int (length (syllabusPhases_memo (course p))))
   \<and> ((\<exists>crs ph. render (page d) = Inr (CourseScreen crs ph))
      \<and> 0 \<le> i \<and> i < int (length (syllabusPhases_memo (course (page d)))) \<longrightarrow>
      detail_step d (ClickPhase i) = d\<lparr>page := (page d)\<lparr>activePhase := i\<rparr>\<rparr>)
   \<and> (i < 0 \<or> int (length (syllabusPhases_memo (course (page d)))) \<le> i \<longrightarrow>
      detail_step d (ClickPhase i) = d)
   \<and> (phase_in_range (page d) \<longrightarrow>
        phase_in_range (page (foldl detail_step d (map ClickPhase js)))
        \<and> course (page (foldl detail_step d (map ClickPhase js))) = course (page d)
        \<and> phase_content (page (foldl detail_step d (map ClickPhase js))) \<noteq> Inl TypeError)
   \<and> (length (syllabusPhases_memo (course p)) = 0 \<longrightarrow>
        phase_headers p = [] \<and> phase_content p = Inr None)
   \<and> activePhase (page (detail_mount i0)) = 0"
proof -
  have reach: "single_load i0 es \<longrightarrow>
      phase_in_range (page (detail_run i0 es))
      \<and> phase_content (page (detail_run i0 es)) \<noteq> Inl TypeError"
    using single_load_invariant [of i0 es] in_range_no_error
    by (auto simp add: load_inv_def)
  have sel: "(\<exists>crs ph. render (page d) = Inr (CourseScreen crs ph))
      \<and> 0 \<le> i \<and> i < int (length (syllabusPhases_memo (course (page d)))) \<longrightarrow>
      detail_step d (ClickPhase i) = d\<lparr>page := (page d)\<lparr>activePhase := i\<rparr>\<rparr>"
    using click_in_range_step [of d i] by blast
  have noop: "i < 0 \<or> int (length (syllabusPhases_memo (course (page d)))) \<le> i \<longrightarrow>
      detail_step d (ClickPhase i) = d"
    using click_out_of_range_step [of i d] by blast
  have inv: "phase_in_range (page d) \<longrightarrow>
        phase_in_range (page (foldl detail_step d (map ClickPhase js)))
        \<and> course (page (foldl detail_step d (map ClickPhase js))) = course (page d)
        \<and> phase_content (page (foldl detail_step d (map ClickPhase js))) \<noteq> Inl TypeError"
    using clicks_in_range [of d js] in_range_no_error by blast
  have none: "length (syllabusPhases_memo (course p)) = 0 \<longrightarrow>
        phase_headers p = [] \<and> phase_content p = Inr None"
    using no_phases_no_headers [of p] by blast
  from reach phase_headers_mem [of i p] sel noop inv none mount_activePhase [of i0]
  show ?thesis by blast
qed

theorem phase_selection_witness:
  "single_load (Some ''c1'') single_load_trace
   \<and> phase_in_range (page (detail_run (Some ''c1'') single_load_trace))
   \<and> 1 \<in> set (phase_headers loaded_page)
   \<and> detail_step loaded_detail (ClickPhase 1)
       = loaded_detail\<lparr>page := (page loaded_detail)\<lparr>activePhase := 1\<rparr>\<rparr>
   \<and> detail_step loaded_detail (ClickPhase 2) = loaded_detail
   \<and> detail_step loaded_detail (ClickPhase (- 1)) = loaded_detail
   \<and> phase_in_range (page loaded_detail)
   \<and> phase_in_range (page (foldl detail_step loaded_detail (map ClickPhase [1, 2, - 1])))
   \<and> length (syllabusPhases_memo (course page_initial)) = 0
   \<and> phase_headers page_initial = []"
proof -
  have once: "single_load (Some ''c1'') single_load_trace"
    by (simp add: single_load_def single_load_trace_def settled_runs_def)
  have shown: "render loaded_page
      = Inr (CourseScreen two_phase_course (Some (sample_phase ''Foundations'')))"
    by (simp add: render_def loaded_page_def phase_content_def syllabusPhases_memo_def
        two_phase_course_def sample_course_def)
  have pg: "page loaded_detail = loaded_page" by (simp add: loaded_detail_def)
  have count: "length (syllabusPhases_memo (course loaded_page)) = 2"
    by (simp add: loaded_page_def syllabusPhases_memo_def two_phase_course_def sample_course_def)
  have start: "phase_in_range (page loaded_detail)"
    by (simp add: phase_in_range_def pg count) (simp add: loaded_page_def)
  have empty: "length (syllabusPhases_memo (course page_initial)) = 0"
    by (simp add: page_initial_def syllabusPhases_memo_def)
  from once shown pg count start empty
    phase_selection [of "Some ''c1''" single_load_trace 1 loaded_page loaded_detail "[1, 2, - 1]"]
    phase_selection [of "Some ''c1''" single_load_trace 2 loaded_page loaded_detail "[1, 2, - 1]"]
    phase_selection [of "Some ''c1''" single_load_trace "- 1" loaded_page loaded_detail "[1, 2, - 1]"]
    phase_selection [of "Some ''c1''" single_load_trace 0 page_initial loaded_detail "[]"]
  show ?thesis by simp
qed

end
